theory Spec2Isabelle
  imports Complex_Main "HOL-Library.Word" "HOL-Library.AList"
begin

section \<open>Values of the Python program\<close>

text \<open>
  The integration receives JSON from the cloud service and handles it with Python's
  dynamically typed operations. A parsed payload is a value of \<open>json\<close>: an object is
  the association list of its members (a later duplicate of a key wins, as in
  \<^verbatim>\<open>json.loads\<close>), an integer literal is a Python \<^verbatim>\<open>int\<close>, and a literal
  with a fraction or exponent is a Python \<^verbatim>\<open>float\<close>, kept by its exact value.
\<close>

datatype json =
    JNull
  | JBool bool
  | JInt int
  | JFloat rat
  | JStr string
  | JArr "json list"
  | JObj "(string \<times> json) list"

text \<open>
  The exceptions that the two modules can raise. \<open>HomeAssistantError\<close> carries the
  argument it was built with (the server's message, or a fixed text); \<open>KeyError\<close> the
  missing key; \<open>ValueError\<close> stands for the decoder's error on a body that is not
  JSON; \<open>UnboundLocalError\<close> carries the name of the local variable read before its
  first assignment; \<open>OSError\<close> the path that could not be opened.
\<close>

datatype exn =
    HomeAssistantError json
  | KeyError json
  | IndexError
  | TypeError
  | ValueError
  | UnboundLocalError string
  | OSError string

type_synonym byte = "8 word"

subsection \<open>Python's operations on parsed JSON\<close>

text \<open>Truth value of an object, as \<^verbatim>\<open>if groups:\<close> and \<^verbatim>\<open>if ret_json:\<close> test it.\<close>

fun truthy :: "json \<Rightarrow> bool" where
  "truthy JNull = False"
| "truthy (JBool b) = b"
| "truthy (JInt i) = (i \<noteq> 0)"
| "truthy (JFloat r) = (r \<noteq> 0)"
| "truthy (JStr s) = (s \<noteq> [])"
| "truthy (JArr xs) = (xs \<noteq> [])"
| "truthy (JObj kvs) = (kvs \<noteq> [])"

text \<open>Member lookup in a parsed object: the last occurrence of a key is the one kept.\<close>

definition obj_get :: "(string \<times> json) list \<Rightarrow> string \<Rightarrow> json option" where
  "obj_get kvs k = map_of (rev kvs) k"

text \<open>
  \<^verbatim>\<open>x[k]\<close> with a string key \<open>k\<close>: a dict looks the key up, a list or a string
  refuses a string index, and the other values are not subscriptable.
\<close>

fun py_getitem :: "json \<Rightarrow> string \<Rightarrow> exn + json" where
  "py_getitem (JObj kvs) k =
     (case obj_get kvs k of None \<Rightarrow> Inl (KeyError (JStr k)) | Some v \<Rightarrow> Inr v)"
| "py_getitem _ k = Inl TypeError"

text \<open>\<^verbatim>\<open>x[0]\<close>: the first element of a list, the first character of a string.\<close>

fun py_index0 :: "json \<Rightarrow> exn + json" where
  "py_index0 (JArr []) = Inl IndexError"
| "py_index0 (JArr (x # xs)) = Inr x"
| "py_index0 (JStr []) = Inl IndexError"
| "py_index0 (JStr (c # cs)) = Inr (JStr [c])"
| "py_index0 (JObj kvs) = Inl (KeyError (JInt 0))"
| "py_index0 _ = Inl TypeError"

fun starts_with :: "string \<Rightarrow> string \<Rightarrow> bool" where
  "starts_with [] s = True"
| "starts_with (c # cs) [] = False"
| "starts_with (c # cs) (d # ds) = (c = d \<and> starts_with cs ds)"

fun has_substring :: "string \<Rightarrow> string \<Rightarrow> bool" where
  "has_substring needle [] = (needle = [])"
| "has_substring needle (c # cs) =
     (starts_with needle (c # cs) \<or> has_substring needle cs)"

text \<open>
  \<^verbatim>\<open>k in x\<close> with a string \<open>k\<close>: key membership for a dict, element membership for
  a list, substring test for a string; the other values are not iterable.
\<close>

fun py_contains :: "string \<Rightarrow> json \<Rightarrow> exn + bool" where
  "py_contains k (JObj kvs) = Inr (k \<in> set (map fst kvs))"
| "py_contains k (JArr xs) = Inr (JStr k \<in> set xs)"
| "py_contains k (JStr s) = Inr (has_substring k s)"
| "py_contains k _ = Inl TypeError"

fun first_keys :: "string list \<Rightarrow> string list" where
  "first_keys [] = []"
| "first_keys (k # ks) = k # first_keys (filter (\<lambda>x. x \<noteq> k) ks)"

text \<open>
  \<^verbatim>\<open>for x in v\<close>: the elements of a list, the keys of a dict (in the order of their
  first insertion), the characters of a string.
\<close>

fun py_iter :: "json \<Rightarrow> exn + json list" where
  "py_iter (JArr xs) = Inr xs"
| "py_iter (JObj kvs) = Inr (map JStr (first_keys (map fst kvs)))"
| "py_iter (JStr s) = Inr (map (\<lambda>c. JStr [c]) s)"
| "py_iter _ = Inl TypeError"

text \<open>
  \<^verbatim>\<open>x > t\<close> against a float \<open>t\<close>: numbers compare by value (a bool is the integer 0 or
  1), and every other operand raises \<open>TypeError\<close>.
\<close>

fun py_gt :: "json \<Rightarrow> rat \<Rightarrow> exn + bool" where
  "py_gt (JInt i) t = Inr (of_int i > t)"
| "py_gt (JFloat r) t = Inr (r > t)"
| "py_gt (JBool b) t = Inr ((if b then 1 else 0) > t)"
| "py_gt _ t = Inl TypeError"

subsection \<open>Dictionary keys\<close>

text \<open>
  Keys of a Python dict are compared with \<^verbatim>\<open>==\<close> and must be hashable: \<open>True\<close>,
  \<open>1\<close> and \<open>1.0\<close> are one key, and a list or a dict is refused with \<open>TypeError\<close>.
\<close>

datatype key = KNone | KNum rat | KStr string

fun key_of :: "json \<Rightarrow> exn + key" where
  "key_of JNull = Inr KNone"
| "key_of (JBool b) = Inr (KNum (if b then 1 else 0))"
| "key_of (JInt i) = Inr (KNum (of_int i))"
| "key_of (JFloat r) = Inr (KNum r)"
| "key_of (JStr s) = Inr (KStr s)"
| "key_of _ = Inl TypeError"

subsection \<open>Text formatting\<close>

definition digit_char :: "nat \<Rightarrow> char" where
  "digit_char d = ''0123456789'' ! d"

function str_nat :: "nat \<Rightarrow> string" where
  "str_nat n = (if n < 10 then [digit_char n] else str_nat (n div 10) @ [digit_char (n mod 10)])"
  by pat_completeness auto
termination
  by (relation "measure id") auto

declare str_nat.simps [simp del]

definition str_int :: "int \<Rightarrow> string" where
  "str_int i = (if i < 0 then CHR ''-'' # str_nat (nat (- i)) else str_nat (nat i))"

text \<open>
  \<^verbatim>\<open>str(v)\<close>, as an f-string and \<^verbatim>\<open>str.format\<close> apply it. The texts Python prints
  for a float, a list and a dict come from the interpreter's \<^verbatim>\<open>repr\<close>, which is not
  code of this repository: they are the parameter \<open>repr\<close>.
\<close>

fun py_str :: "(json \<Rightarrow> string) \<Rightarrow> json \<Rightarrow> string" where
  "py_str repr (JStr s) = s"
| "py_str repr (JInt i) = str_int i"
| "py_str repr (JBool b) = (if b then ''True'' else ''False'')"
| "py_str repr JNull = ''None''"
| "py_str repr v = repr v"

text \<open>
  Zero padding to a fixed number of digits, as \<^verbatim>\<open>strftime\<close> does for the fields
  of a date (a year of the wall clock has four digits).
\<close>

definition pad :: "nat \<Rightarrow> nat \<Rightarrow> string" where
  "pad w n = replicate (w - length (str_nat n)) CHR ''0'' @ str_nat n"

record datetime =
  year :: nat
  month :: nat
  day :: nat
  hour :: nat
  minute :: nat
  second :: nat

text \<open>\<^verbatim>\<open>datetime.strftime("%Y%m%d_%H%M%S")\<close>.\<close>

definition strftime :: "datetime \<Rightarrow> string" where
  "strftime d =
     pad 4 (year d) @ pad 2 (month d) @ pad 2 (day d) @ ''_'' @
     pad 2 (hour d) @ pad 2 (minute d) @ pad 2 (second d)"

text \<open>\<^verbatim>\<open>base64.b64encode\<close> on the bytes of the image, decoded as text.\<close>

definition b64_char :: "nat \<Rightarrow> char" where
  "b64_char n =
     ''ABCDEFGHIJKLMNOPQRSTUVWXYZabcdefghijklmnopqrstuvwxyz0123456789+/'' ! n"

fun b64encode :: "byte list \<Rightarrow> string" where
  "b64encode [] = []"
| "b64encode [a] =
     [b64_char (unat a div 4), b64_char ((unat a mod 4) * 16), CHR ''='', CHR ''='']"
| "b64encode [a, b] =
     [b64_char (unat a div 4), b64_char ((unat a mod 4) * 16 + unat b div 16),
      b64_char ((unat b mod 16) * 4), CHR ''='']"
| "b64encode (a # b # c # rest) =
     [b64_char (unat a div 4), b64_char ((unat a mod 4) * 16 + unat b div 16),
      b64_char ((unat b mod 16) * 4 + unat c div 64), b64_char (unat c mod 64)]
     @ b64encode rest"

section \<open>The host and the network\<close>

text \<open>
  What the client session is asked to send: the arguments of
  \<^verbatim>\<open>websession.get(...)\<close> and \<^verbatim>\<open>websession.post(...)\<close>.
\<close>

record request =
  http_method :: string
  url :: string
  headers :: "(string \<times> string) list"
  params :: "(string \<times> json) list option"
  data :: "(string \<times> json) list option"

text \<open>
  What \<^verbatim>\<open>await response.json()\<close> does: it returns the parsed payload, or raises an
  \<^verbatim>\<open>aiohttp.ClientError\<close> (wrong content type, broken payload), an
  \<^verbatim>\<open>asyncio.TimeoutError\<close>, or the decoder's \<^verbatim>\<open>ValueError\<close>.
\<close>

datatype body = Json json | BodyClientError | BodyTimeout | BodyInvalid

record response =
  status :: int
  resp_url :: string
  body :: body

text \<open>
  What awaiting the request under \<^verbatim>\<open>async_timeout.timeout(self.timeout)\<close> does: the
  transport fails with an \<^verbatim>\<open>aiohttp.ClientError\<close>, the timeout elapses before a
  response arrives (\<^verbatim>\<open>asyncio.TimeoutError\<close>, and \<^verbatim>\<open>response\<close> was never
  assigned), or a response arrives.
\<close>

datatype http_outcome = ClientError | TimeoutError | Response response

text \<open>
  The surroundings of one run: the server (the outcome of each request), the
  interpreter's \<^verbatim>\<open>repr\<close>, the wall clock read by \<^verbatim>\<open>datetime.now()\<close>, and whether
  \<^verbatim>\<open>open(path, "wb")\<close> succeeds.
\<close>

record env =
  server :: "request \<Rightarrow> http_outcome"
  py_repr :: "json \<Rightarrow> string"
  clock :: datetime
  can_open :: "string \<Rightarrow> bool"

datatype level = Debug | Warning | Error

record log_entry =
  level :: level
  message :: string
  args :: "json list"

text \<open>A \<^verbatim>\<open>BaiduFaceGroupEntity\<close>: its \<^verbatim>\<open>_id\<close> and \<^verbatim>\<open>_name\<close>.\<close>

record group_entity =
  g_id :: json
  g_name :: json

text \<open>One dictionary of \<^verbatim>\<open>known_faces\<close>: \<^verbatim>\<open>{ATTR_NAME: ..., ATTR_CONFIDENCE: ...}\<close>.\<close>

record detection =
  name :: json
  confidence :: json

text \<open>
  The mutable state: the fields of the \<^verbatim>\<open>BaiduFace\<close> object (\<open>api_key\<close>,
  \<open>secret_key\<close>, \<open>token\<close>, \<open>store\<close>, \<open>entities\<close>), the module-level dictionary
  \<^verbatim>\<open>ATTR_LIST\<close> of the image-processing module (\<open>attr_list\<close>, in insertion
  order), and the effects on the host: the requests sent, the log, the group entities
  whose state was refreshed, the files written, and the calls of
  \<^verbatim>\<open>async_process_faces(known_faces, len(known_faces))\<close>.
\<close>

record state =
  api_key :: string
  secret_key :: string
  token :: json
  store :: "key \<rightharpoonup> (key \<rightharpoonup> json)"
  entities :: "key \<rightharpoonup> group_entity"
  attr_list :: "(string \<times> json) list"
  requests :: "request list"
  logs :: "log_entry list"
  refreshed :: "key list"
  files :: "string \<rightharpoonup> byte list"
  reports :: "(detection list \<times> nat) list"

text \<open>A \<^verbatim>\<open>BaiduFaceIdentifyEntity\<close>: the fields the constructor sets.\<close>

record identify_entity =
  ent_camera :: string
  ent_confidence :: rat
  ent_face_group :: string
  ent_save_path :: string
  ent_name :: string

section \<open>The API client\<close>

definition CONF_API_KEY :: string where "CONF_API_KEY = ''client_id''"
definition CONF_SECRET_KEY :: string where "CONF_SECRET_KEY = ''client_secret''"
definition CONF_GRANT_TYPE :: string where "CONF_GRANT_TYPE = ''grant_type''"

definition BAIDU_TOKEN_API_URL :: string where
  "BAIDU_TOKEN_API_URL = ''https://aip.baidubce.com/oauth/2.0/token''"

text \<open>\<^verbatim>\<open>BAIDU_FACE_API_URL.format(function, token)\<close>.\<close>

definition BAIDU_FACE_API_URL :: "string \<Rightarrow> string \<Rightarrow> string" where
  "BAIDU_FACE_API_URL f t =
     ''https://aip.baidubce.com/rest/2.0/face/v3/'' @ f @ ''?access_token='' @ t"

definition json_headers :: "(string \<times> string) list" where
  "json_headers = [(''Content-Type'', ''application/json'')]"

definition log :: "level \<Rightarrow> string \<Rightarrow> json list \<Rightarrow> state \<Rightarrow> state" where
  "log l m a st = st\<lparr>logs := logs st @ [\<lparr>level = l, message = m, args = a\<rparr>]\<rparr>"

definition sent :: "request \<Rightarrow> state \<Rightarrow> state" where
  "sent rq st = st\<lparr>requests := requests st @ [rq]\<rparr>"

text \<open>\<^verbatim>\<open>raise HomeAssistantError(answer["error"]["message"])\<close>.\<close>

definition raise_server_message :: "json \<Rightarrow> exn" where
  "raise_server_message answer =
     (case py_getitem answer ''error'' of
        Inl x \<Rightarrow> x
      | Inr er \<Rightarrow>
          (case py_getitem er ''message'' of
             Inl x \<Rightarrow> x
           | Inr m \<Rightarrow> HomeAssistantError m))"

definition token_request :: "state \<Rightarrow> request" where
  "token_request st =
     \<lparr>http_method = ''get'', url = BAIDU_TOKEN_API_URL, headers = json_headers,
      params = Some [(CONF_API_KEY, JStr (api_key st)),
                     (CONF_SECRET_KEY, JStr (secret_key st)),
                     (CONF_GRANT_TYPE, JStr ''client_credentials'')],
      data = None\<rparr>"

definition token_network_error :: exn where
  "token_network_error = HomeAssistantError (JStr ''Network error on baidu token api.'')"

text \<open>
  \<^verbatim>\<open>BaiduFace.get_token\<close>. The request and the reading of the payload are both
  inside the timeout block. The handler of \<^verbatim>\<open>asyncio.TimeoutError\<close> reads
  \<^verbatim>\<open>response.url\<close>: when the timeout elapsed before the response arrived, that name
  is unbound.
\<close>

definition get_token :: "env \<Rightarrow> state \<Rightarrow> (exn + unit) \<times> state" where
  "get_token e st =
     (let st1 = sent (token_request st) st in
      case server e (token_request st) of
        ClientError \<Rightarrow>
          (Inl token_network_error, log Warning ''Can't connect to baidu token api'' [] st1)
      | TimeoutError \<Rightarrow> (Inl (UnboundLocalError ''response''), st1)
      | Response r \<Rightarrow>
          (case body r of
             BodyClientError \<Rightarrow>
               (Inl token_network_error,
                log Warning ''Can't connect to baidu token api'' [] st1)
           | BodyTimeout \<Rightarrow>
               (Inl token_network_error,
                log Warning ''Timeout from baidu token api %s'' [JStr (resp_url r)] st1)
           | BodyInvalid \<Rightarrow> (Inl ValueError, st1)
           | Json answer \<Rightarrow>
               (let st2 = log Debug ''Read from baidu token api: %s'' [answer] st1 in
                case (if status r < 300 then py_contains ''access_token'' answer
                      else Inr False) of
                  Inl x \<Rightarrow> (Inl x, st2)
                | Inr True \<Rightarrow>
                    (case py_getitem answer ''access_token'' of
                       Inl x \<Rightarrow> (Inl x, st2)
                     | Inr t \<Rightarrow>
                         (Inr (), log Debug ''Baidu token is %s'' [t] (st2\<lparr>token := t\<rparr>)))
                | Inr False \<Rightarrow>
                    (Inl (raise_server_message answer),
                     log Warning ''Error %d baidu token api %s''
                       [JInt (status r), JStr (resp_url r)] st2))))"

definition api_request ::
  "env \<Rightarrow> state \<Rightarrow> string \<Rightarrow> string \<Rightarrow> (string \<times> json) list option \<Rightarrow>
   (string \<times> json) list option \<Rightarrow> request" where
  "api_request e st m function ps d =
     \<lparr>http_method = m, url = BAIDU_FACE_API_URL function (py_str (py_repr e) (token st)),
      headers = json_headers, params = ps, data = d\<rparr>"

definition api_network_error :: exn where
  "api_network_error = HomeAssistantError (JStr ''Network error on baidu face api.'')"

definition opt_dict :: "(string \<times> json) list option \<Rightarrow> json" where
  "opt_dict ps = (case ps of None \<Rightarrow> JNull | Some kvs \<Rightarrow> JObj kvs)"

text \<open>
  \<^verbatim>\<open>BaiduFace.call_api\<close>. Only the request is inside the timeout block, so whenever
  the configured timeout elapses \<^verbatim>\<open>response\<close> is unbound in the handler.
\<close>

definition call_api ::
  "env \<Rightarrow> string \<Rightarrow> string \<Rightarrow> (string \<times> json) list option \<Rightarrow>
   (string \<times> json) list option \<Rightarrow> state \<Rightarrow> (exn + json) \<times> state" where
  "call_api e m function ps d st =
     (let rq = api_request e st m function ps d; st1 = sent rq st in
      case server e rq of
        ClientError \<Rightarrow>
          (Inl api_network_error, log Warning ''Can't connect to baidu face api'' [] st1)
      | TimeoutError \<Rightarrow> (Inl (UnboundLocalError ''response''), st1)
      | Response r \<Rightarrow>
          (case body r of
             BodyClientError \<Rightarrow>
               (Inl api_network_error,
                log Warning ''Can't connect to baidu face api'' [] st1)
           | BodyTimeout \<Rightarrow>
               (Inl api_network_error,
                log Warning ''Timeout from baidu face api %s'' [JStr (resp_url r)] st1)
           | BodyInvalid \<Rightarrow> (Inl ValueError, st1)
           | Json answer \<Rightarrow>
               (let st2 = log Debug ''Read from baidu face api: %s\<newline>%s\<newline>%s\<newline>''
                            [JStr (url rq), opt_dict ps, answer] st1 in
                if status r < 300 then (Inr answer, st2)
                else (Inl (raise_server_message answer),
                      log Warning ''Error %d baidu face api %s''
                        [JInt (status r), JStr (resp_url r)] st2))))"

section \<open>Loading the store\<close>

text \<open>
  The inner loop of \<^verbatim>\<open>update_store\<close>:
  \<^verbatim>\<open>for person in persons["user_id_list"]: self._store[group][person] = person\<close>.
  The outer loop has just inserted the group, so the lookup of
  \<^verbatim>\<open>self._store[group]\<close> finds it.
\<close>

fun store_persons :: "json \<Rightarrow> json list \<Rightarrow> state \<Rightarrow> (exn + unit) \<times> state" where
  "store_persons grp [] st = (Inr (), st)"
| "store_persons grp (person # rest) st =
     (case key_of grp of
        Inl x \<Rightarrow> (Inl x, st)
      | Inr g \<Rightarrow>
          (case store st g of
             None \<Rightarrow> (Inl (KeyError grp), st)
           | Some m \<Rightarrow>
               (case key_of person of
                  Inl x \<Rightarrow> (Inl x, st)
                | Inr p \<Rightarrow>
                    store_persons grp rest
                      (st\<lparr>store := (store st)(g \<mapsto> m(p \<mapsto> person))\<rparr>))))"

definition users_params :: "json \<Rightarrow> (string \<times> json) list option" where
  "users_params grp = Some [(''group_id'', grp)]"

text \<open>
  The outer loop, \<^verbatim>\<open>for group in groups["group_id_list"]\<close>. \<open>tasks\<close> are the
  entities whose state refresh has been queued so far.
\<close>

fun load_groups ::
  "env \<Rightarrow> json list \<Rightarrow> key list \<Rightarrow> state \<Rightarrow> (exn + key list) \<times> state" where
  "load_groups e [] tasks st = (Inr tasks, st)"
| "load_groups e (grp # rest) tasks st =
     (case key_of grp of
        Inl x \<Rightarrow> (Inl x, st)
      | Inr g \<Rightarrow>
          (let st1 = st\<lparr>store := (store st)(g \<mapsto> Map.empty),
                         entities := (entities st)(g \<mapsto> \<lparr>g_id = grp, g_name = grp\<rparr>)\<rparr>
           in case call_api e ''get'' ''faceset/group/getusers'' (users_params grp) None st1 of
                (Inl x, st2) \<Rightarrow> (Inl x, st2)
              | (Inr answer, st2) \<Rightarrow>
                  (case py_getitem answer ''result'' of
                     Inl x \<Rightarrow> (Inl x, st2)
                   | Inr persons \<Rightarrow>
                       if truthy persons then
                         (case py_getitem persons ''user_id_list'' of
                            Inl x \<Rightarrow> (Inl x, st2)
                          | Inr l \<Rightarrow>
                              (case py_iter l of
                                 Inl x \<Rightarrow> (Inl x, st2)
                               | Inr ps \<Rightarrow>
                                   (case store_persons grp ps st2 of
                                      (Inl x, st3) \<Rightarrow> (Inl x, st3)
                                    | (Inr u, st3) \<Rightarrow> load_groups e rest (tasks @ [g]) st3)))
                       else load_groups e rest tasks st2)))"

text \<open>
  \<^verbatim>\<open>BaiduFace.update_store\<close>. The queued refreshes run under
  \<^verbatim>\<open>asyncio.wait(tasks)\<close> once the loop has finished.
\<close>

definition update_store :: "env \<Rightarrow> state \<Rightarrow> (exn + unit) \<times> state" where
  "update_store e st =
     (case call_api e ''post'' ''faceset/group/getlist'' None None st of
        (Inl x, st1) \<Rightarrow> (Inl x, st1)
      | (Inr answer, st1) \<Rightarrow>
          (case py_getitem answer ''result'' of
             Inl x \<Rightarrow> (Inl x, st1)
           | Inr groups \<Rightarrow>
               if truthy groups then
                 (case py_getitem groups ''group_id_list'' of
                    Inl x \<Rightarrow> (Inl x, st1)
                  | Inr l \<Rightarrow>
                      (case py_iter l of
                         Inl x \<Rightarrow> (Inl x, st1)
                       | Inr gs \<Rightarrow>
                           (case load_groups e gs [] st1 of
                              (Inl x, st2) \<Rightarrow> (Inl x, st2)
                            | (Inr tasks, st2) \<Rightarrow>
                                (Inr (), st2\<lparr>refreshed := refreshed st2 @ tasks\<rparr>))))
               else (Inr (), st1)))"

section \<open>Identifying a frame\<close>

definition ATTR_GROUP_ID :: string where "ATTR_GROUP_ID = ''group_id''"
definition ATTR_SCORE :: string where "ATTR_SCORE = ''score''"
definition ATTR_UID :: string where "ATTR_UID = ''user_id''"
definition ATTR_USER_INFO :: string where "ATTR_USER_INFO = ''user_info''"

text \<open>The module-level dictionary as the module creates it.\<close>

definition ATTR_LIST :: "(string \<times> json) list" where
  "ATTR_LIST =
     [(ATTR_GROUP_ID, JStr ''null''), (ATTR_SCORE, JStr ''null''),
      (ATTR_UID, JStr ''null''), (ATTR_USER_INFO, JStr ''null'')]"

text \<open>\<^verbatim>\<open>for key in ATTR_LIST: ATTR_LIST[key] = "null"\<close>.\<close>

definition reset_attrs :: "(string \<times> json) list \<Rightarrow> (string \<times> json) list" where
  "reset_attrs al = fold (\<lambda>k. AList.update k (JStr ''null'')) (map fst al) al"

text \<open>\<^verbatim>\<open>ret_json["user_list"][0][key]\<close>.\<close>

definition first_user_field :: "json \<Rightarrow> string \<Rightarrow> exn + json" where
  "first_user_field ret_json k =
     (case py_getitem ret_json ''user_list'' of
        Inl x \<Rightarrow> Inl x
      | Inr ul \<Rightarrow>
          (case py_index0 ul of
             Inl x \<Rightarrow> Inl x
           | Inr u \<Rightarrow> py_getitem u k))"

text \<open>
  \<^verbatim>\<open>for key in ATTR_LIST: ATTR_LIST[key] = ret_json["user_list"][0][key]\<close>, over the
  keys still to visit; an exception leaves the entries already assigned in place.
\<close>

fun fill_attrs ::
  "json \<Rightarrow> string list \<Rightarrow> (string \<times> json) list \<Rightarrow> (exn + unit) \<times> (string \<times> json) list" where
  "fill_attrs ret_json [] al = (Inr (), al)"
| "fill_attrs ret_json (k # ks) al =
     (case first_user_field ret_json k of
        Inl x \<Rightarrow> (Inl x, al)
      | Inr v \<Rightarrow> fill_attrs ret_json ks (AList.update k v al))"

text \<open>\<^verbatim>\<open>ATTR_LIST[ATTR_UID]\<close>.\<close>

definition attr_uid :: "state \<Rightarrow> exn + json" where
  "attr_uid st =
     (case map_of (attr_list st) ATTR_UID of
        None \<Rightarrow> Inl (KeyError (JStr ATTR_UID))
      | Some v \<Rightarrow> Inr v)"

text \<open>The f-string that names the saved frame.\<close>

definition save_name :: "env \<Rightarrow> identify_entity \<Rightarrow> json \<Rightarrow> json \<Rightarrow> string" where
  "save_name e ent uid conf =
     ent_save_path ent @ py_str (py_repr e) uid @ ''_'' @ strftime (clock e) @ ''_'' @
     py_str (py_repr e) conf @ ''.jpg''"

text \<open>\<^verbatim>\<open>self.async_process_faces(known_faces, len(known_faces))\<close>.\<close>

definition async_process_faces :: "detection list \<Rightarrow> state \<Rightarrow> state" where
  "async_process_faces known_faces st =
     st\<lparr>reports := reports st @ [(known_faces, length known_faces)]\<rparr>"

text \<open>
  The body of \<^verbatim>\<open>if ret_json:\<close>, entered with the attributes already reset: read the
  score, fill the attributes, save the frame when the score is greater than the
  entity's confidence, and return the one detection.
\<close>

definition parse_match ::
  "env \<Rightarrow> identify_entity \<Rightarrow> byte list \<Rightarrow> json \<Rightarrow> state \<Rightarrow> (exn + detection list) \<times> state" where
  "parse_match e ent img ret_json st =
     (case first_user_field ret_json ATTR_SCORE of
        Inl x \<Rightarrow> (Inl x, st)
      | Inr conf \<Rightarrow>
          (case fill_attrs ret_json (map fst (attr_list st)) (attr_list st) of
             (Inl x, al) \<Rightarrow> (Inl x, st\<lparr>attr_list := al\<rparr>)
           | (Inr u, al) \<Rightarrow>
               (let st1 = st\<lparr>attr_list := al\<rparr> in
                case py_gt conf (ent_confidence ent) of
                  Inl x \<Rightarrow> (Inl x, st1)
                | Inr exceeds \<Rightarrow>
                    (case attr_uid st1 of
                       Inl x \<Rightarrow> (Inl x, st1)
                     | Inr uid \<Rightarrow>
                         if exceeds then
                           (if can_open e (save_name e ent uid conf) then
                              (Inr [\<lparr>name = uid, confidence = conf\<rparr>],
                               st1\<lparr>files := (files st1)(save_name e ent uid conf \<mapsto> img)\<rparr>)
                            else (Inl (OSError (save_name e ent uid conf)), st1))
                         else (Inr [\<lparr>name = uid, confidence = conf\<rparr>], st1)))))"

definition search_params :: "identify_entity \<Rightarrow> (string \<times> json) list option" where
  "search_params ent =
     Some [(''image_type'', JStr ''BASE64''), (''group_id_list'', JStr (ent_face_group ent))]"

definition search_data :: "byte list \<Rightarrow> (string \<times> json) list option" where
  "search_data img = Some [(''image'', JStr (b64encode img))]"

text \<open>
  \<^verbatim>\<open>BaiduFaceIdentifyEntity.async_process_image\<close>. The \<^verbatim>\<open>try\<close> block holds the call
  and the subscript \<^verbatim>\<open>["result"]\<close>; its handler catches \<^verbatim>\<open>HomeAssistantError\<close>
  only, logs it and returns. Everything after it runs outside any handler.
\<close>

definition async_process_image ::
  "env \<Rightarrow> identify_entity \<Rightarrow> byte list \<Rightarrow> state \<Rightarrow> (exn + unit) \<times> state" where
  "async_process_image e ent img st =
     (case call_api e ''post'' ''search'' (search_params ent) (search_data img) st of
        (Inl (HomeAssistantError err), st1) \<Rightarrow>
          (Inr (), log Error ''Can't process image on Baidu face: %s'' [err] st1)
      | (Inl x, st1) \<Rightarrow> (Inl x, st1)
      | (Inr answer, st1) \<Rightarrow>
          (case py_getitem answer ''result'' of
             Inl x \<Rightarrow> (Inl x, st1)
           | Inr ret_json \<Rightarrow>
               (let st2 = st1\<lparr>attr_list := reset_attrs (attr_list st1)\<rparr> in
                if truthy ret_json then
                  (case parse_match e ent img ret_json st2 of
                     (Inl x, st3) \<Rightarrow> (Inl x, st3)
                   | (Inr known_faces, st3) \<Rightarrow> (Inr (), async_process_faces known_faces st3))
                else (Inr (), async_process_faces [] st2))))"

section \<open>Notions of the specification and sample inputs\<close>

text \<open>The number a JSON value denotes in a comparison, if it denotes one.\<close>

fun json_num :: "json \<Rightarrow> rat option" where
  "json_num (JInt i) = Some (of_int i)"
| "json_num (JFloat r) = Some r"
| "json_num (JBool b) = Some (if b then 1 else 0)"
| "json_num _ = None"

text \<open>
  The answer of a successful call reports the list \<open>xs\<close> under \<open>result[k]\<close>: its
  result is absent or empty and \<open>xs\<close> is empty, or the member \<open>k\<close> of its result
  iterates to \<open>xs\<close>.
\<close>

definition reported :: "json \<Rightarrow> string \<Rightarrow> json list option" where
  "reported answer k =
     (case py_getitem answer ''result'' of
        Inl x \<Rightarrow> None
      | Inr res \<Rightarrow>
          if truthy res then
            (case py_getitem res k of
               Inl x \<Rightarrow> None
             | Inr l \<Rightarrow> (case py_iter l of Inl x \<Rightarrow> None | Inr xs \<Rightarrow> Some xs))
          else Some [])"

text \<open>The dictionary \<^verbatim>\<open>{p: p for p in xs}\<close> over string ids.\<close>

definition mirror :: "string list \<Rightarrow> key \<rightharpoonup> json" where
  "mirror xs = map_of (map (\<lambda>p. (KStr p, JStr p)) xs)"

text \<open>The two requests of \<^verbatim>\<open>update_store\<close>, as the client builds them.\<close>

definition groups_request :: "env \<Rightarrow> state \<Rightarrow> request" where
  "groups_request e st = api_request e st ''post'' ''faceset/group/getlist'' None None"

definition users_request :: "env \<Rightarrow> state \<Rightarrow> string \<Rightarrow> request" where
  "users_request e st g =
     api_request e st ''get'' ''faceset/group/getusers'' (users_params (JStr g)) None"

text \<open>The state after \<^verbatim>\<open>BaiduFace.__init__\<close> and the import of both modules.\<close>

definition init_state :: "string \<Rightarrow> string \<Rightarrow> state" where
  "init_state ak sk =
     \<lparr>api_key = ak, secret_key = sk, token = JStr [], store = Map.empty,
      entities = Map.empty, attr_list = ATTR_LIST, requests = [], logs = [],
      refreshed = [], files = Map.empty, reports = []\<rparr>"

text \<open>A server that answers a request with the given status and payload.\<close>

definition replies :: "int \<Rightarrow> json \<Rightarrow> request \<Rightarrow> http_outcome" where
  "replies code payload rq = Response \<lparr>status = code, resp_url = url rq, body = Json payload\<rparr>"

text \<open>A server on which every request times out before a response arrives.\<close>

definition times_out :: "request \<Rightarrow> http_outcome" where
  "times_out rq = TimeoutError"

definition sample_clock :: datetime where
  "sample_clock = \<lparr>year = 2024, month = 3, day = 9, hour = 7, minute = 5, second = 0\<rparr>"

definition host :: "(request \<Rightarrow> http_outcome) \<Rightarrow> env" where
  "host srv = \<lparr>server = srv, py_repr = (\<lambda>v. ''<repr>''), clock = sample_clock,
               can_open = (\<lambda>p. True)\<rparr>"

definition door :: identify_entity where
  "door = \<lparr>ent_camera = ''camera.door'', ent_confidence = 80, ent_face_group = ''g1'',
           ent_save_path = ''/config/www/face/'', ent_name = ''Baidu Face door''\<rparr>"

definition match_result :: "int \<Rightarrow> json" where
  "match_result sc =
     JObj [(''user_list'',
            JArr [JObj [(''score'', JInt sc), (''user_id'', JStr ''u1''),
                        (''group_id'', JStr ''g1''), (''user_info'', JStr ''x'')]])]"

definition match_payload :: "int \<Rightarrow> json" where
  "match_payload sc = JObj [(''result'', match_result sc)]"

definition no_match_payload :: json where
  "no_match_payload = JObj [(''error_code'', JInt 222207), (''result'', JNull)]"

definition frame :: "byte list" where
  "frame = [255, 216, 255]"

text \<open>
  A cloud with the group \<open>g1\<close> and its one person \<open>p1\<close>: the scenario of the
  specification. The group list is the only \<^verbatim>\<open>post\<close> of the loader.
\<close>

definition groups_payload :: "string list \<Rightarrow> json" where
  "groups_payload gs = JObj [(''result'', JObj [(''group_id_list'', JArr (map JStr gs))])]"

definition users_payload :: "string list \<Rightarrow> json" where
  "users_payload xs = JObj [(''result'', JObj [(''user_id_list'', JArr (map JStr xs))])]"

definition cloud :: "request \<Rightarrow> http_outcome" where
  "cloud rq =
     (if http_method rq = ''post'' then replies 200 (groups_payload [''g1'']) rq
      else replies 200 (users_payload [''p1'']) rq)"

text \<open>A cloud with three groups, where the connection breaks on the users of \<open>g2\<close>.\<close>

definition broken_cloud :: "request \<Rightarrow> http_outcome" where
  "broken_cloud rq =
     (if http_method rq = ''post'' then replies 200 (groups_payload [''g1'', ''g2'', ''g3'']) rq
      else if params rq = users_params (JStr ''g2'') then ClientError
      else replies 200 (users_payload [''p1'']) rq)"

text \<open>A server that cannot be reached.\<close>

definition down :: "request \<Rightarrow> http_outcome" where
  "down rq = ClientError"

text \<open>A state whose scratch dictionary holds the attributes of an earlier match.\<close>

definition seen :: state where
  "seen = (init_state ''ak'' ''sk'')
     \<lparr>attr_list := [(ATTR_GROUP_ID, JStr ''g1''), (ATTR_SCORE, JInt 92),
                     (ATTR_UID, JStr ''u1''), (ATTR_USER_INFO, JStr ''x'')]\<rparr>"

section \<open>Frame processing: what a call leaves alone\<close>

text \<open>A call of the client changes the requests sent and the log, and nothing else.\<close>

lemma call_api_frame:
  "call_api e m f ps d st = (r, st') \<Longrightarrow>
     store st' = store st \<and> token st' = token st \<and> entities st' = entities st \<and>
     attr_list st' = attr_list st \<and> files st' = files st \<and> reports st' = reports st \<and>
     refreshed st' = refreshed st \<and> api_key st' = api_key st \<and> secret_key st' = secret_key st"
  by (auto simp: call_api_def Let_def log_def sent_def
           split: http_outcome.splits body.splits if_splits)

lemma reset_attrs_keys:
  "map fst al = map fst ATTR_LIST \<Longrightarrow> reset_attrs al = ATTR_LIST"
  by (auto simp: reset_attrs_def ATTR_LIST_def ATTR_GROUP_ID_def ATTR_SCORE_def ATTR_UID_def
        ATTR_USER_INFO_def map_eq_Cons_conv)

lemma py_gt_num: "json_num v = Some c \<Longrightarrow> py_gt v t = Inr (t < c)"
  by (cases v) auto

lemma parse_match_frame:
  "parse_match e ent img ret st = (r, st') \<Longrightarrow>
     store st' = store st \<and> token st' = token st \<and> entities st' = entities st \<and>
     reports st' = reports st \<and> requests st' = requests st \<and> logs st' = logs st \<and>
     refreshed st' = refreshed st \<and> api_key st' = api_key st \<and> secret_key st' = secret_key st"
  by (auto simp: parse_match_def Let_def split: sum.splits prod.splits if_splits)

text \<open>
  Claim C10. Whatever the outcome of \<^verbatim>\<open>async_process_image\<close> (no match, a match
  below or above the threshold, a failed call, an exception), the group/person store,
  the held token and the group entities are the ones the call started with.
\<close>

theorem process_keeps_store_and_token:
  "store (snd (async_process_image e ent img st)) = store st \<and>
   token (snd (async_process_image e ent img st)) = token st \<and>
   entities (snd (async_process_image e ent img st)) = entities st"
proof -
  obtain r st1 where c: "call_api e ''post'' ''search'' (search_params ent) (search_data img) st = (r, st1)"
    by (cases "call_api e ''post'' ''search'' (search_params ent) (search_data img) st")
  note f = call_api_frame [OF c]
  show ?thesis
    using f c
    by (auto simp: async_process_image_def Let_def log_def async_process_faces_def
          split: sum.splits exn.splits prod.splits dest!: parse_match_frame)
qed

section \<open>Frame processing: a well-formed match\<close>

lemma fill_attrs_match:
  assumes "first_user_field ret ATTR_GROUP_ID = Inr gid"
    and "first_user_field ret ATTR_SCORE = Inr conf"
    and "first_user_field ret ATTR_UID = Inr uid"
    and "first_user_field ret ATTR_USER_INFO = Inr info"
  shows "fill_attrs ret (map fst ATTR_LIST) ATTR_LIST =
     (Inr (), [(ATTR_GROUP_ID, gid), (ATTR_SCORE, conf), (ATTR_UID, uid), (ATTR_USER_INFO, info)])"
  using assms
  by (simp add: ATTR_LIST_def ATTR_GROUP_ID_def ATTR_SCORE_def ATTR_UID_def ATTR_USER_INFO_def)


lemma parse_match_well_formed:
  assumes g: "first_user_field ret ATTR_GROUP_ID = Inr gid"
    and c: "first_user_field ret ATTR_SCORE = Inr conf"
    and u: "first_user_field ret ATTR_UID = Inr uid"
    and i: "first_user_field ret ATTR_USER_INFO = Inr info"
    and n: "json_num conf = Some sc"
    and a: "attr_list st = ATTR_LIST"
  shows "parse_match e ent img ret st =
     (if ent_confidence ent < sc then
        (if can_open e (save_name e ent uid conf) then
           (Inr [\<lparr>name = uid, confidence = conf\<rparr>],
            st\<lparr>attr_list := [(ATTR_GROUP_ID, gid), (ATTR_SCORE, conf), (ATTR_UID, uid),
                               (ATTR_USER_INFO, info)],
               files := (files st)(save_name e ent uid conf \<mapsto> img)\<rparr>)
         else (Inl (OSError (save_name e ent uid conf)),
               st\<lparr>attr_list := [(ATTR_GROUP_ID, gid), (ATTR_SCORE, conf), (ATTR_UID, uid),
                               (ATTR_USER_INFO, info)]\<rparr>))
      else (Inr [\<lparr>name = uid, confidence = conf\<rparr>],
            st\<lparr>attr_list := [(ATTR_GROUP_ID, gid), (ATTR_SCORE, conf), (ATTR_UID, uid),
                               (ATTR_USER_INFO, info)]\<rparr>))"
proof -
  have f: "fill_attrs ret (map fst (attr_list st)) (attr_list st) =
     (Inr (), [(ATTR_GROUP_ID, gid), (ATTR_SCORE, conf), (ATTR_UID, uid), (ATTR_USER_INFO, info)])"
    unfolding a by (rule fill_attrs_match [OF g c u i])
  have k: "attr_uid (st\<lparr>attr_list := [(ATTR_GROUP_ID, gid), (ATTR_SCORE, conf), (ATTR_UID, uid),
                               (ATTR_USER_INFO, info)]\<rparr>) = Inr uid"
    by (simp add: attr_uid_def ATTR_GROUP_ID_def ATTR_SCORE_def ATTR_UID_def)
  show ?thesis
    unfolding parse_match_def
    by (simp add: c f k py_gt_num [OF n] Let_def)
qed

lemma process_after_answer:
  assumes s: "fst (call_api e ''post'' ''search'' (search_params ent) (search_data img) st) = Inr answer"
    and r: "py_getitem answer ''result'' = Inr ret"
    and a: "map fst (attr_list st) = map fst ATTR_LIST"
  shows "\<exists>st1. files st1 = files st \<and> reports st1 = reports st \<and> attr_list st1 = ATTR_LIST \<and>
     async_process_image e ent img st =
       (if truthy ret then
          (case parse_match e ent img ret st1 of
             (Inl x, st3) \<Rightarrow> (Inl x, st3)
           | (Inr known_faces, st3) \<Rightarrow> (Inr (), async_process_faces known_faces st3))
        else (Inr (), async_process_faces [] st1))"
proof -
  obtain st0 where c: "call_api e ''post'' ''search'' (search_params ent) (search_data img) st = (Inr answer, st0)"
    using s by (cases "call_api e ''post'' ''search'' (search_params ent) (search_data img) st") auto
  note f = call_api_frame [OF c]
  let ?st1 = "st0\<lparr>attr_list := reset_attrs (attr_list st0)\<rparr>"
  have "attr_list ?st1 = ATTR_LIST" using a f by (simp add: reset_attrs_keys)
  moreover have "files ?st1 = files st" "reports ?st1 = reports st" using f by simp_all
  moreover have "async_process_image e ent img st =
       (if truthy ret then
          (case parse_match e ent img ret ?st1 of
             (Inl x, st3) \<Rightarrow> (Inl x, st3)
           | (Inr known_faces, st3) \<Rightarrow> (Inr (), async_process_faces known_faces st3))
        else (Inr (), async_process_faces [] ?st1))"
    by (simp add: async_process_image_def c r Let_def)
  ultimately show ?thesis by blast
qed

text \<open>
  Claim C1, as the code has it. Let the search call succeed and its result carry a
  first user with the four attributes and a numeric score. When the score is strictly
  greater than the entity's confidence and the file can be opened,
  \<^verbatim>\<open>async_process_image\<close> writes the bytes of the frame to exactly one file, named
  \<^verbatim>\<open>{save_path}{user_id}_{timestamp}_{score}.jpg\<close>, and reports exactly one
  detection, whose name is the user id and whose confidence is the score. When the
  score equals the entity's confidence, it reports that one detection and writes no
  file.
\<close>

theorem process_saves_match_above_threshold:
  assumes "fst (call_api e ''post'' ''search'' (search_params ent) (search_data img) st) = Inr answer"
    and "py_getitem answer ''result'' = Inr ret"
    and "truthy ret"
    and "first_user_field ret ATTR_GROUP_ID = Inr gid"
    and "first_user_field ret ATTR_SCORE = Inr conf"
    and "first_user_field ret ATTR_UID = Inr uid"
    and "first_user_field ret ATTR_USER_INFO = Inr info"
    and "json_num conf = Some sc"
    and "map fst (attr_list st) = map fst ATTR_LIST"
  shows "(ent_confidence ent < sc \<and>
          can_open e (ent_save_path ent @ py_str (py_repr e) uid @ ''_'' @ strftime (clock e) @
            ''_'' @ py_str (py_repr e) conf @ ''.jpg'') \<longrightarrow>
            (\<exists>st'. async_process_image e ent img st = (Inr (), st') \<and>
               files st' = (files st)(ent_save_path ent @ py_str (py_repr e) uid @ ''_'' @
                 strftime (clock e) @ ''_'' @ py_str (py_repr e) conf @ ''.jpg'' \<mapsto> img) \<and>
               reports st' = reports st @ [([\<lparr>name = uid, confidence = conf\<rparr>], 1)])) \<and>
         (sc = ent_confidence ent \<longrightarrow>
            (\<exists>st'. async_process_image e ent img st = (Inr (), st') \<and>
               files st' = files st \<and>
               reports st' = reports st @ [([\<lparr>name = uid, confidence = conf\<rparr>], 1)]))"
proof -
  obtain st1 where st1: "files st1 = files st" "reports st1 = reports st" "attr_list st1 = ATTR_LIST"
    and p: "async_process_image e ent img st =
       (if truthy ret then
          (case parse_match e ent img ret st1 of
             (Inl x, st3) \<Rightarrow> (Inl x, st3)
           | (Inr known_faces, st3) \<Rightarrow> (Inr (), async_process_faces known_faces st3))
        else (Inr (), async_process_faces [] st1))"
    using process_after_answer [OF assms(1) assms(2) assms(9)] by blast
  note m = parse_match_well_formed [OF assms(4-8) st1(3)]
  show ?thesis
  proof (intro conjI impI)
    assume "ent_confidence ent < sc \<and>
          can_open e (ent_save_path ent @ py_str (py_repr e) uid @ ''_'' @ strftime (clock e) @
            ''_'' @ py_str (py_repr e) conf @ ''.jpg'')"
    then have a: "ent_confidence ent < sc" and o: "can_open e (save_name e ent uid conf)"
      by (simp_all add: save_name_def)
    show "\<exists>st'. async_process_image e ent img st = (Inr (), st') \<and>
               files st' = (files st)(ent_save_path ent @ py_str (py_repr e) uid @ ''_'' @
                 strftime (clock e) @ ''_'' @ py_str (py_repr e) conf @ ''.jpg'' \<mapsto> img) \<and>
               reports st' = reports st @ [([\<lparr>name = uid, confidence = conf\<rparr>], 1)]"
      using assms(3) a o st1
      by (simp add: p m async_process_faces_def save_name_def)
  next
    assume "sc = ent_confidence ent"
    then have n: "\<not> ent_confidence ent < sc" by simp
    show "\<exists>st'. async_process_image e ent img st = (Inr (), st') \<and>
               files st' = files st \<and>
               reports st' = reports st @ [([\<lparr>name = uid, confidence = conf\<rparr>], 1)]"
      using assms(3) n st1
      by (simp add: p m async_process_faces_def)
  qed
qed


section \<open>Evaluation at sample inputs\<close>

lemmas sample_defs = host_def replies_def door_def match_payload_def match_result_def
  no_match_payload_def frame_def init_state_def sample_clock_def times_out_def

lemmas client_defs = call_api_def api_request_def sent_def log_def search_params_def
  search_data_def BAIDU_FACE_API_URL_def json_headers_def opt_dict_def obj_get_def
  raise_server_message_def api_network_error_def

lemmas attr_defs = ATTR_LIST_def ATTR_GROUP_ID_def ATTR_SCORE_def ATTR_UID_def
  ATTR_USER_INFO_def first_user_field_def

lemmas text_defs = strftime_def pad_def str_nat.simps digit_char_def str_int_def b64_char_def

text \<open>
  The scenario of the specification: score 92 against the threshold 80 gives one file
  and one detection; score 80 against the threshold 80 gives the detection alone.
\<close>

theorem process_saves_match_above_threshold_witness:
  "(\<exists>st'. async_process_image (host (replies 200 (match_payload 92))) door frame
            (init_state ''ak'' ''sk'') = (Inr (), st') \<and>
          files st' = [''/config/www/face/u1_20240309_070500_92.jpg'' \<mapsto> frame] \<and>
          reports st' = [([\<lparr>name = JStr ''u1'', confidence = JInt 92\<rparr>], 1)]) \<and>
   (\<exists>st'. async_process_image (host (replies 200 (match_payload 80))) door frame
            (init_state ''ak'' ''sk'') = (Inr (), st') \<and>
          files st' = Map.empty \<and>
          reports st' = [([\<lparr>name = JStr ''u1'', confidence = JInt 80\<rparr>], 1)])"
proof -
  let ?st = "init_state ''ak'' ''sk''"
  have k: "map fst (attr_list ?st) = map fst ATTR_LIST" by (simp add: sample_defs)
  have f: "files ?st = Map.empty" "reports ?st = []" by (simp_all add: sample_defs)
  have h1: "fst (call_api (host (replies 200 (match_payload n))) ''post'' ''search''
              (search_params door) (search_data frame) ?st) = Inr (match_payload n)" for n
    by (simp add: sample_defs client_defs Let_def)
  have h2: "py_getitem (match_payload n) ''result'' = Inr (match_result n)" for n
    by (simp add: sample_defs obj_get_def)
  have h3: "truthy (match_result n)" for n by (simp add: sample_defs)
  have h4: "first_user_field (match_result n) ATTR_GROUP_ID = Inr (JStr ''g1'')" for n
    by (simp add: sample_defs attr_defs obj_get_def)
  have h5: "first_user_field (match_result n) ATTR_SCORE = Inr (JInt n)" for n
    by (simp add: sample_defs attr_defs obj_get_def)
  have h6: "first_user_field (match_result n) ATTR_UID = Inr (JStr ''u1'')" for n
    by (simp add: sample_defs attr_defs obj_get_def)
  have h7: "first_user_field (match_result n) ATTR_USER_INFO = Inr (JStr ''x'')" for n
    by (simp add: sample_defs attr_defs obj_get_def)
  have h8: "json_num (JInt 92) = Some 92" "json_num (JInt 80) = Some 80" by simp_all
  let ?e = "host (replies 200 (match_payload 92))"
  have above: "ent_confidence door < 92 \<and>
       can_open ?e (ent_save_path door @ py_str (py_repr ?e) (JStr ''u1'') @ ''_'' @
         strftime (clock ?e) @ ''_'' @ py_str (py_repr ?e) (JInt 92) @ ''.jpg'')"
    by (simp add: sample_defs)
  have equal: "80 = ent_confidence door" by (simp add: sample_defs)
  have n: "ent_save_path door @ py_str (py_repr ?e) (JStr ''u1'') @ ''_'' @
       strftime (clock ?e) @ ''_'' @ py_str (py_repr ?e) (JInt 92) @ ''.jpg''
       = ''/config/www/face/u1_20240309_070500_92.jpg''"
    by (simp add: sample_defs text_defs)
  show ?thesis
    using process_saves_match_above_threshold [OF h1 h2 h3 h4 h5 h6 h7 h8(1) k,
        THEN conjunct1, rule_format, OF above]
      process_saves_match_above_threshold [OF h1 h2 h3 h4 h5 h6 h7 h8(2) k,
        THEN conjunct2, rule_format, OF equal]
    unfolding n f by simp
qed

text \<open>
  A score equal to the threshold is "at or above" it, and no file is written: the
  test of the code is \<^verbatim>\<open>confidence > self._confidence\<close>.
\<close>

theorem process_at_threshold_counterexample:
  "json_num (JInt 80) = Some (ent_confidence door) \<and>
   fst (async_process_image (host (replies 200 (match_payload 80))) door frame
          (init_state ''ak'' ''sk'')) = Inr () \<and>
   files (snd (async_process_image (host (replies 200 (match_payload 80))) door frame
          (init_state ''ak'' ''sk''))) = Map.empty \<and>
   reports (snd (async_process_image (host (replies 200 (match_payload 80))) door frame
          (init_state ''ak'' ''sk''))) = [([\<lparr>name = JStr ''u1'', confidence = JInt 80\<rparr>], 1)]"
  by (simp add: async_process_image_def parse_match_def async_process_faces_def attr_uid_def
        reset_attrs_def sample_defs client_defs attr_defs Let_def)

text \<open>The store and the token of a loaded client survive a frame with a match.\<close>

theorem process_keeps_store_and_token_witness:
  "store (snd (async_process_image (host (replies 200 (match_payload 92))) door frame
      ((init_state ''ak'' ''sk'')\<lparr>token := JStr ''T1'', store := [KStr ''g1'' \<mapsto> [KStr ''p1'' \<mapsto> JStr ''p1'']]\<rparr>)))
     = [KStr ''g1'' \<mapsto> [KStr ''p1'' \<mapsto> JStr ''p1'']] \<and>
   token (snd (async_process_image (host (replies 200 (match_payload 92))) door frame
      ((init_state ''ak'' ''sk'')\<lparr>token := JStr ''T1'', store := [KStr ''g1'' \<mapsto> [KStr ''p1'' \<mapsto> JStr ''p1'']]\<rparr>)))
     = JStr ''T1''"
  using process_keeps_store_and_token [of "host (replies 200 (match_payload 92))" door frame
     "(init_state ''ak'' ''sk'')\<lparr>token := JStr ''T1'', store := [KStr ''g1'' \<mapsto> [KStr ''p1'' \<mapsto> JStr ''p1'']]\<rparr>"]
  by simp


section \<open>Frame processing: no match, or a match below the threshold\<close>

lemma search_answer_state:
  assumes "fst (call_api e m f ps d st) = Inr answer"
  shows "\<exists>st0. call_api e m f ps d st = (Inr answer, st0) \<and> files st0 = files st \<and>
           reports st0 = reports st \<and> attr_list st0 = attr_list st"
proof -
  obtain st0 where c: "call_api e m f ps d st = (Inr answer, st0)"
    using assms by (cases "call_api e m f ps d st") auto
  from call_api_frame [OF c] c show ?thesis by simp
qed

lemma process_no_match:
  assumes s: "fst (call_api e ''post'' ''search'' (search_params ent) (search_data img) st) = Inr answer"
    and r: "py_getitem answer ''result'' = Inr ret"
    and n: "\<not> truthy ret"
  shows "\<exists>st'. async_process_image e ent img st = (Inr (), st') \<and> files st' = files st \<and>
           reports st' = reports st @ [([], 0)] \<and> attr_list st' = reset_attrs (attr_list st)"
proof -
  obtain st0 where c: "call_api e ''post'' ''search'' (search_params ent) (search_data img) st = (Inr answer, st0)"
    and f: "files st0 = files st" "reports st0 = reports st" "attr_list st0 = attr_list st"
    using search_answer_state [OF s] by blast
  show ?thesis
    by (simp add: async_process_image_def c r n f Let_def async_process_faces_def)
qed

text \<open>
  Claim C6. When the search call succeeds and returns no match (its result is absent
  or empty), \<^verbatim>\<open>async_process_image\<close> reports an empty detection list and writes
  no file. When it returns a well-formed match whose numeric score is below the
  entity's confidence, it reports exactly one detection (the user id with the score)
  and writes no file.
\<close>

theorem process_without_file:
  assumes "fst (call_api e ''post'' ''search'' (search_params ent) (search_data img) st) = Inr answer"
    and "py_getitem answer ''result'' = Inr ret"
  shows "(\<not> truthy ret \<longrightarrow>
            (\<exists>st'. async_process_image e ent img st = (Inr (), st') \<and> files st' = files st \<and>
                   reports st' = reports st @ [([], 0)])) \<and>
         (truthy ret \<and> map fst (attr_list st) = map fst ATTR_LIST \<and>
          first_user_field ret ATTR_GROUP_ID = Inr gid \<and>
          first_user_field ret ATTR_SCORE = Inr conf \<and>
          first_user_field ret ATTR_UID = Inr uid \<and>
          first_user_field ret ATTR_USER_INFO = Inr info \<and>
          json_num conf = Some sc \<and> sc < ent_confidence ent \<longrightarrow>
            (\<exists>st'. async_process_image e ent img st = (Inr (), st') \<and> files st' = files st \<and>
                   reports st' = reports st @ [([\<lparr>name = uid, confidence = conf\<rparr>], 1)]))"
proof (intro conjI impI)
  assume "\<not> truthy ret"
  from process_no_match [OF assms this]
  show "\<exists>st'. async_process_image e ent img st = (Inr (), st') \<and> files st' = files st \<and>
                   reports st' = reports st @ [([], 0)]"
    by blast
next
  assume h: "truthy ret \<and> map fst (attr_list st) = map fst ATTR_LIST \<and>
          first_user_field ret ATTR_GROUP_ID = Inr gid \<and>
          first_user_field ret ATTR_SCORE = Inr conf \<and>
          first_user_field ret ATTR_UID = Inr uid \<and>
          first_user_field ret ATTR_USER_INFO = Inr info \<and>
          json_num conf = Some sc \<and> sc < ent_confidence ent"
  then have t: "truthy ret" and k: "map fst (attr_list st) = map fst ATTR_LIST"
    and g: "first_user_field ret ATTR_GROUP_ID = Inr gid"
    and c: "first_user_field ret ATTR_SCORE = Inr conf"
    and u: "first_user_field ret ATTR_UID = Inr uid"
    and i: "first_user_field ret ATTR_USER_INFO = Inr info"
    and n: "json_num conf = Some sc" and b: "sc < ent_confidence ent"
    by simp_all
  obtain st1 where st1: "files st1 = files st" "reports st1 = reports st" "attr_list st1 = ATTR_LIST"
    and p: "async_process_image e ent img st =
       (if truthy ret then
          (case parse_match e ent img ret st1 of
             (Inl x, st3) \<Rightarrow> (Inl x, st3)
           | (Inr known_faces, st3) \<Rightarrow> (Inr (), async_process_faces known_faces st3))
        else (Inr (), async_process_faces [] st1))"
    using process_after_answer [OF assms k] by blast
  from b have nb: "\<not> ent_confidence ent < sc" by simp
  show "\<exists>st'. async_process_image e ent img st = (Inr (), st') \<and> files st' = files st \<and>
                   reports st' = reports st @ [([\<lparr>name = uid, confidence = conf\<rparr>], 1)]"
    using t nb st1
    by (simp add: p parse_match_well_formed [OF g c u i n st1(3)] async_process_faces_def)
qed

text \<open>A frame without a match, and a frame whose match scores 50 against 80.\<close>

theorem process_without_file_witness:
  "(\<exists>st'. async_process_image (host (replies 200 no_match_payload)) door frame
            (init_state ''ak'' ''sk'') = (Inr (), st') \<and>
          files st' = Map.empty \<and> reports st' = [([], 0)]) \<and>
   (\<exists>st'. async_process_image (host (replies 200 (match_payload 50))) door frame
            (init_state ''ak'' ''sk'') = (Inr (), st') \<and>
          files st' = Map.empty \<and>
          reports st' = [([\<lparr>name = JStr ''u1'', confidence = JInt 50\<rparr>], 1)])"
proof -
  let ?st = "init_state ''ak'' ''sk''"
  have f: "files ?st = Map.empty" "reports ?st = []" by (simp_all add: sample_defs)
  have a1: "fst (call_api (host (replies 200 no_match_payload)) ''post'' ''search''
              (search_params door) (search_data frame) ?st) = Inr no_match_payload"
    by (simp add: sample_defs client_defs Let_def)
  have a2: "py_getitem no_match_payload ''result'' = Inr JNull"
    by (simp add: sample_defs obj_get_def)
  have b1: "fst (call_api (host (replies 200 (match_payload 50))) ''post'' ''search''
              (search_params door) (search_data frame) ?st) = Inr (match_payload 50)"
    by (simp add: sample_defs client_defs Let_def)
  have b2: "py_getitem (match_payload 50) ''result'' = Inr (match_result 50)"
    by (simp add: sample_defs obj_get_def)
  have b3: "truthy (match_result 50) \<and> map fst (attr_list ?st) = map fst ATTR_LIST \<and>
          first_user_field (match_result 50) ATTR_GROUP_ID = Inr (JStr ''g1'') \<and>
          first_user_field (match_result 50) ATTR_SCORE = Inr (JInt 50) \<and>
          first_user_field (match_result 50) ATTR_UID = Inr (JStr ''u1'') \<and>
          first_user_field (match_result 50) ATTR_USER_INFO = Inr (JStr ''x'') \<and>
          json_num (JInt 50) = Some 50 \<and> 50 < ent_confidence door"
    by (simp add: sample_defs attr_defs obj_get_def)
  have n: "\<not> truthy JNull" by simp
  show ?thesis
    using process_without_file [OF a1 a2, THEN conjunct1, rule_format, OF n]
      process_without_file [OF b1 b2, THEN conjunct2, rule_format, OF b3]
    unfolding f by simp
qed


section \<open>Frame processing: a result without a first user\<close>

lemma first_user_field_missing:
  assumes "obj_get kvs ''user_list'' = None \<or> obj_get kvs ''user_list'' = Some (JArr [])"
  shows "first_user_field (JObj kvs) k =
     Inl (if obj_get kvs ''user_list'' = None then KeyError (JStr ''user_list'') else IndexError)"
  using assms by (auto simp: first_user_field_def)

text \<open>
  Claim C9. When the search call succeeds and its result is a non-empty object whose
  \<^verbatim>\<open>user_list\<close> is absent or is the empty list, \<^verbatim>\<open>async_process_image\<close> raises
  an exception that nothing catches (\<open>KeyError\<close> for the absent member, \<open>IndexError\<close>
  for the empty list), from \<^verbatim>\<open>ret_json["user_list"][0]\<close>; nothing is reported and
  no file is written.
\<close>

theorem process_raises_without_user_list:
  assumes "fst (call_api e ''post'' ''search'' (search_params ent) (search_data img) st) = Inr answer"
    and "py_getitem answer ''result'' = Inr (JObj kvs)"
    and "kvs \<noteq> []"
    and "obj_get kvs ''user_list'' = None \<or> obj_get kvs ''user_list'' = Some (JArr [])"
  shows "\<exists>st'. async_process_image e ent img st =
           (Inl (if obj_get kvs ''user_list'' = None then KeyError (JStr ''user_list'')
                 else IndexError), st') \<and>
         files st' = files st \<and> reports st' = reports st"
proof -
  obtain st0 where c: "call_api e ''post'' ''search'' (search_params ent) (search_data img) st = (Inr answer, st0)"
    and f: "files st0 = files st" "reports st0 = reports st"
    using search_answer_state [OF assms(1)] by blast
  show ?thesis
    using assms(3)
    by (simp add: async_process_image_def c assms(2) Let_def parse_match_def
          first_user_field_missing [OF assms(4)] f)
qed

text \<open>An empty user list, and a result that has no user list at all.\<close>

theorem process_raises_without_user_list_witness:
  "fst (async_process_image (host (replies 200 (JObj [(''result'', JObj [(''user_list'', JArr [])])])))
          door frame (init_state ''ak'' ''sk'')) = Inl IndexError \<and>
   fst (async_process_image (host (replies 200 (JObj [(''result'', JObj [(''face_num'', JInt 0)])])))
          door frame (init_state ''ak'' ''sk'')) = Inl (KeyError (JStr ''user_list''))"
proof -
  let ?st = "init_state ''ak'' ''sk''"
  let ?p1 = "JObj [(''result'', JObj [(''user_list'', JArr [])])]"
  let ?p2 = "JObj [(''result'', JObj [(''face_num'', JInt 0)])]"
  have a1: "fst (call_api (host (replies 200 ?p1)) ''post'' ''search''
              (search_params door) (search_data frame) ?st) = Inr ?p1"
    by (simp add: sample_defs client_defs Let_def)
  have a2: "py_getitem ?p1 ''result'' = Inr (JObj [(''user_list'', JArr [])])"
    by (simp add: obj_get_def)
  have a3: "[(''user_list'', JArr [])] \<noteq> []" by simp
  have a4: "obj_get [(''user_list'', JArr [])] ''user_list'' = None \<or>
            obj_get [(''user_list'', JArr [])] ''user_list'' = Some (JArr [])"
    by (simp add: obj_get_def)
  have b1: "fst (call_api (host (replies 200 ?p2)) ''post'' ''search''
              (search_params door) (search_data frame) ?st) = Inr ?p2"
    by (simp add: sample_defs client_defs Let_def)
  have b2: "py_getitem ?p2 ''result'' = Inr (JObj [(''face_num'', JInt 0)])"
    by (simp add: obj_get_def)
  have b3: "[(''face_num'', JInt 0)] \<noteq> []" by simp
  have b4: "obj_get [(''face_num'', JInt 0)] ''user_list'' = None \<or>
            obj_get [(''face_num'', JInt 0)] ''user_list'' = Some (JArr [])"
    by (simp add: obj_get_def)
  show ?thesis
    using process_raises_without_user_list [OF a1 a2 a3 a4]
      process_raises_without_user_list [OF b1 b2 b3 b4]
    by (auto simp: obj_get_def)
qed

section \<open>Frame processing: the scratch dictionary\<close>

text \<open>
  The outcome of the client's call does not look at the scratch dictionary, and the
  call passes it on as it found it.
\<close>

lemma call_api_attr_list:
  "call_api e m f ps d (st\<lparr>attr_list := a\<rparr>) =
     (fst (call_api e m f ps d st), (snd (call_api e m f ps d st))\<lparr>attr_list := a\<rparr>)"
  by (simp add: call_api_def api_request_def sent_def log_def Let_def
        split: http_outcome.splits body.splits)

lemma process_forgets_attributes:
  assumes s: "fst (call_api e ''post'' ''search'' (search_params ent) (search_data img) st) = Inr answer"
    and r: "py_getitem answer ''result'' = Inr ret"
    and k: "map fst (attr_list st) = map fst ATTR_LIST"
  shows "async_process_image e ent img st =
           async_process_image e ent img (st\<lparr>attr_list := ATTR_LIST\<rparr>)"
proof -
  obtain st0 where c: "call_api e ''post'' ''search'' (search_params ent) (search_data img) st = (Inr answer, st0)"
    and a: "attr_list st0 = attr_list st"
    using search_answer_state [OF s] by blast
  have c': "call_api e ''post'' ''search'' (search_params ent) (search_data img)
              (st\<lparr>attr_list := ATTR_LIST\<rparr>) = (Inr answer, st0\<lparr>attr_list := ATTR_LIST\<rparr>)"
    by (simp add: call_api_attr_list c)
  have r0: "reset_attrs (attr_list st0) = ATTR_LIST" using a k by (simp add: reset_attrs_keys)
  have r1: "reset_attrs ATTR_LIST = ATTR_LIST" by (simp add: reset_attrs_keys)
  show ?thesis
    by (simp add: async_process_image_def c c' r r0 r1 Let_def)
qed

lemma process_failed_call_keeps_attributes:
  assumes "fst (call_api e ''post'' ''search'' (search_params ent) (search_data img) st) = Inl x"
  shows "attr_list (snd (async_process_image e ent img st)) = attr_list st"
proof -
  obtain st0 where c: "call_api e ''post'' ''search'' (search_params ent) (search_data img) st = (Inl x, st0)"
    using assms by (cases "call_api e ''post'' ''search'' (search_params ent) (search_data img) st") auto
  from call_api_frame [OF c] show ?thesis
    by (cases x) (simp_all add: async_process_image_def c log_def)
qed

lemma no_match_twice:
  assumes "map fst (attr_list st) = map fst ATTR_LIST"
    and s1: "fst (call_api e1 ''post'' ''search'' (search_params ent1) (search_data img1) st) = Inr a1"
    and r1: "py_getitem a1 ''result'' = Inr r1"
    and n1: "\<not> truthy r1"
    and s2: "fst (call_api e2 ''post'' ''search'' (search_params ent2) (search_data img2)
           (snd (async_process_image e1 ent1 img1 st))) = Inr a2"
    and r2: "py_getitem a2 ''result'' = Inr r2"
    and n2: "\<not> truthy r2"
  shows "attr_list (snd (async_process_image e1 ent1 img1 st)) = ATTR_LIST \<and>
         attr_list (snd (async_process_image e2 ent2 img2
             (snd (async_process_image e1 ent1 img1 st)))) = ATTR_LIST"
proof -
  let ?st1 = "snd (async_process_image e1 ent1 img1 st)"
  have one: "attr_list ?st1 = ATTR_LIST"
    using process_no_match [OF s1 r1 n1] assms(1) by (auto simp: reset_attrs_keys)
  then have k: "map fst (attr_list ?st1) = map fst ATTR_LIST" by simp
  have two: "attr_list (snd (async_process_image e2 ent2 img2 ?st1)) = ATTR_LIST"
    using process_no_match [OF s2 r2 n2] k by (auto simp: reset_attrs_keys)
  from one two show ?thesis by simp
qed

text \<open>
  Claim C7, as the code has it. The reset of \<^verbatim>\<open>ATTR_LIST\<close> comes after the
  \<^verbatim>\<open>try\<close> block. So in every call of \<^verbatim>\<open>async_process_image\<close> whose search call
  succeeds and answers with a result member, every key is reset to \<^verbatim>\<open>"null"\<close>
  before the response is looked at: the call does what it would do on a dictionary
  that holds \<^verbatim>\<open>"null"\<close> under every key. Two such calls in succession that both
  return no match leave every key at \<^verbatim>\<open>"null"\<close>, after the first call and after the
  second, whatever an earlier match left. A call whose search call raises leaves
  the dictionary as it found it.
\<close>

theorem no_match_leaves_no_attribute:
  assumes "map fst (attr_list st) = map fst ATTR_LIST"
  shows "(fst (call_api e1 ''post'' ''search'' (search_params ent1) (search_data img1) st) = Inr a1 \<and>
          py_getitem a1 ''result'' = Inr r1 \<longrightarrow>
            async_process_image e1 ent1 img1 st =
              async_process_image e1 ent1 img1
                (st\<lparr>attr_list := [(ATTR_GROUP_ID, JStr ''null''), (ATTR_SCORE, JStr ''null''),
                                   (ATTR_UID, JStr ''null''), (ATTR_USER_INFO, JStr ''null'')]\<rparr>)) \<and>
         (fst (call_api e1 ''post'' ''search'' (search_params ent1) (search_data img1) st) = Inr a1 \<and>
          py_getitem a1 ''result'' = Inr r1 \<and> \<not> truthy r1 \<and>
          fst (call_api e2 ''post'' ''search'' (search_params ent2) (search_data img2)
                 (snd (async_process_image e1 ent1 img1 st))) = Inr a2 \<and>
          py_getitem a2 ''result'' = Inr r2 \<and> \<not> truthy r2 \<longrightarrow>
            attr_list (snd (async_process_image e1 ent1 img1 st)) =
              [(ATTR_GROUP_ID, JStr ''null''), (ATTR_SCORE, JStr ''null''),
               (ATTR_UID, JStr ''null''), (ATTR_USER_INFO, JStr ''null'')] \<and>
            attr_list (snd (async_process_image e2 ent2 img2
                (snd (async_process_image e1 ent1 img1 st)))) =
              [(ATTR_GROUP_ID, JStr ''null''), (ATTR_SCORE, JStr ''null''),
               (ATTR_UID, JStr ''null''), (ATTR_USER_INFO, JStr ''null'')]) \<and>
         (fst (call_api e1 ''post'' ''search'' (search_params ent1) (search_data img1) st) = Inl x \<longrightarrow>
            attr_list (snd (async_process_image e1 ent1 img1 st)) = attr_list st)"
    (is "?reset \<and> ?twice \<and> ?failed")
proof (intro conjI)
  show ?reset
    using process_forgets_attributes [OF _ _ assms, of e1 ent1 img1 a1 r1]
    by (simp add: ATTR_LIST_def)
  show ?twice
    using no_match_twice [OF assms, of e1 ent1 img1 a1 r1 e2 ent2 img2 a2 r2]
    by (simp add: ATTR_LIST_def)
  show ?failed
    using process_failed_call_keeps_attributes [of e1 ent1 img1 st x] by simp
qed

text \<open>
  After a frame that matched user \<open>u1\<close>: a frame with a match is processed as on a
  fresh dictionary, two frames without a match leave \<^verbatim>\<open>"null"\<close> everywhere, and a
  frame whose call finds the server unreachable leaves the attributes of \<open>u1\<close>.
\<close>

theorem no_match_leaves_no_attribute_witness:
  "async_process_image (host (replies 200 (match_payload 50))) door frame seen =
     async_process_image (host (replies 200 (match_payload 50))) door frame
       (seen\<lparr>attr_list := [(ATTR_GROUP_ID, JStr ''null''), (ATTR_SCORE, JStr ''null''),
                            (ATTR_UID, JStr ''null''), (ATTR_USER_INFO, JStr ''null'')]\<rparr>) \<and>
   attr_list (snd (async_process_image (host (replies 200 no_match_payload)) door frame
      (snd (async_process_image (host (replies 200 no_match_payload)) door frame seen)))) =
     [(ATTR_GROUP_ID, JStr ''null''), (ATTR_SCORE, JStr ''null''),
      (ATTR_UID, JStr ''null''), (ATTR_USER_INFO, JStr ''null'')] \<and>
   attr_list (snd (async_process_image (host down) door frame seen)) =
     [(ATTR_GROUP_ID, JStr ''g1''), (ATTR_SCORE, JInt 92),
      (ATTR_UID, JStr ''u1''), (ATTR_USER_INFO, JStr ''x'')]"
proof -
  let ?e = "host (replies 200 no_match_payload)"
  let ?m = "host (replies 200 (match_payload 50))"
  have k: "map fst (attr_list seen) = map fst ATTR_LIST"
    by (simp add: seen_def ATTR_LIST_def)
  have a: "\<And>s. fst (call_api ?e ''post'' ''search'' (search_params door) (search_data frame) s)
             = Inr no_match_payload"
    by (simp add: sample_defs client_defs Let_def)
  have r: "py_getitem no_match_payload ''result'' = Inr JNull"
    by (simp add: sample_defs obj_get_def)
  have m: "fst (call_api ?m ''post'' ''search'' (search_params door) (search_data frame) seen)
             = Inr (match_payload 50) \<and>
           py_getitem (match_payload 50) ''result'' = Inr (match_result 50)"
    by (simp add: sample_defs client_defs obj_get_def Let_def)
  have n: "fst (call_api ?e ''post'' ''search'' (search_params door) (search_data frame) seen)
             = Inr no_match_payload \<and>
          py_getitem no_match_payload ''result'' = Inr JNull \<and> \<not> truthy JNull \<and>
          fst (call_api ?e ''post'' ''search'' (search_params door) (search_data frame)
                 (snd (async_process_image ?e door frame seen))) = Inr no_match_payload \<and>
          py_getitem no_match_payload ''result'' = Inr JNull \<and> \<not> truthy JNull"
    using a r by simp
  have d: "fst (call_api (host down) ''post'' ''search'' (search_params door) (search_data frame) seen)
             = Inl (HomeAssistantError (JStr ''Network error on baidu face api.''))"
    by (simp add: sample_defs client_defs down_def Let_def)
  have s: "attr_list seen = [(ATTR_GROUP_ID, JStr ''g1''), (ATTR_SCORE, JInt 92),
      (ATTR_UID, JStr ''u1''), (ATTR_USER_INFO, JStr ''x'')]"
    by (simp add: seen_def)
  show ?thesis
    using no_match_leaves_no_attribute [OF k, of ?m door frame "match_payload 50" "match_result 50",
        THEN conjunct1, rule_format, OF m]
      no_match_leaves_no_attribute [OF k, of ?e door frame no_match_payload JNull
        ?e door frame no_match_payload JNull, THEN conjunct2, THEN conjunct1, rule_format, OF n]
      no_match_leaves_no_attribute [OF k, of "host down" door frame _ _ _ _ _ _ _
        "HomeAssistantError (JStr ''Network error on baidu face api.'')",
        THEN conjunct2, THEN conjunct2, rule_format, OF d]
    unfolding s by simp
qed

text \<open>
  Where the claim as written fails: the reset is not at the start of the call. Two
  frames in succession whose search call fails are caught and report nothing, and the
  dictionary still holds the attributes of the earlier match of \<open>u1\<close>.
\<close>

theorem stale_attributes_counterexample:
  "fst (async_process_image (host down) door frame seen) = Inr () \<and>
   fst (async_process_image (host down) door frame
          (snd (async_process_image (host down) door frame seen))) = Inr () \<and>
   reports (snd (async_process_image (host down) door frame
          (snd (async_process_image (host down) door frame seen)))) = [] \<and>
   attr_list (snd (async_process_image (host down) door frame
          (snd (async_process_image (host down) door frame seen)))) =
     [(ATTR_GROUP_ID, JStr ''g1''), (ATTR_SCORE, JInt 92),
      (ATTR_UID, JStr ''u1''), (ATTR_USER_INFO, JStr ''x'')]"
  by (simp add: async_process_image_def seen_def sample_defs client_defs down_def Let_def)


section \<open>Frame processing: a failed call\<close>

text \<open>
  Claim C2, at a frame whose search request times out: \<^verbatim>\<open>call_api\<close> raises
  \<open>UnboundLocalError\<close> from its handler, \<^verbatim>\<open>async_process_image\<close> catches
  \<^verbatim>\<open>HomeAssistantError\<close> only, and the exception reaches the caller.
\<close>

theorem process_timeout_escapes:
  "fst (async_process_image (host times_out) door frame (init_state ''ak'' ''sk''))
     = Inl (UnboundLocalError ''response'') \<and>
   reports (snd (async_process_image (host times_out) door frame (init_state ''ak'' ''sk''))) = []"
  by (simp add: async_process_image_def sample_defs client_defs Let_def)

text \<open>
  A \<^verbatim>\<open>HomeAssistantError\<close> of the call is caught and logged: the function returns
  without a report, a file or a change of the scratch dictionary.
\<close>

lemma process_catches_home_assistant_error:
  assumes "fst (call_api e ''post'' ''search'' (search_params ent) (search_data img) st)
             = Inl (HomeAssistantError err)"
  shows "\<exists>st'. async_process_image e ent img st = (Inr (), st') \<and> files st' = files st \<and>
           reports st' = reports st \<and> attr_list st' = attr_list st \<and>
           last (logs st') = \<lparr>level = Error,
              message = ''Can't process image on Baidu face: %s'', args = [err]\<rparr>"
proof -
  obtain st0 where c: "call_api e ''post'' ''search'' (search_params ent) (search_data img) st
       = (Inl (HomeAssistantError err), st0)"
    using assms by (cases "call_api e ''post'' ''search'' (search_params ent) (search_data img) st") auto
  from call_api_frame [OF c] show ?thesis
    by (simp add: async_process_image_def c log_def)
qed


section \<open>Acquiring the token\<close>

lemma obj_get_Some_key: "obj_get kvs k = Some v \<Longrightarrow> k \<in> set (map fst kvs)"
  unfolding obj_get_def by (drule map_of_SomeD) force

lemma obj_get_None_key: "obj_get kvs k = None \<Longrightarrow> k \<notin> set (map fst kvs)"
  unfolding obj_get_def by (simp add: map_of_eq_None_iff)

text \<open>
  Claim C3, as the code has it. When the token endpoint answers with a JSON object:
  if the status is below 300 and the object has an \<^verbatim>\<open>access_token\<close> member,
  \<^verbatim>\<open>get_token\<close> returns normally and the held token is that member's value; if the
  status is 300 or more, or the member is missing, and the object carries
  \<^verbatim>\<open>error.message\<close>, it raises \<^verbatim>\<open>HomeAssistantError\<close> with that message and
  the held token is unchanged.
\<close>

theorem get_token_response:
  assumes "server e (token_request st) = Response r"
    and "body r = Json (JObj kvs)"
  shows "(status r < 300 \<and> obj_get kvs ''access_token'' = Some t \<longrightarrow>
            (\<exists>st'. get_token e st = (Inr (), st') \<and> token st' = t)) \<and>
         ((300 \<le> status r \<or> obj_get kvs ''access_token'' = None) \<and>
          obj_get kvs ''error'' = Some er \<and> py_getitem er ''message'' = Inr m \<longrightarrow>
            (\<exists>st'. get_token e st = (Inl (HomeAssistantError m), st') \<and>
                   token st' = token st))"
proof (intro conjI impI)
  assume h: "status r < 300 \<and> obj_get kvs ''access_token'' = Some t"
  then have k: "''access_token'' \<in> set (map fst kvs)" by (blast dest: obj_get_Some_key)
  show "\<exists>st'. get_token e st = (Inr (), st') \<and> token st' = t"
    using h k by (simp add: get_token_def assms Let_def log_def sent_def)
next
  assume h: "(300 \<le> status r \<or> obj_get kvs ''access_token'' = None) \<and>
          obj_get kvs ''error'' = Some er \<and> py_getitem er ''message'' = Inr m"
  have c: "(if status r < 300 then py_contains ''access_token'' (JObj kvs) else Inr False)
                  = Inr False"
  proof (cases "status r < 300")
    case True
    with h have "obj_get kvs ''access_token'' = None" by simp
    then have "''access_token'' \<notin> set (map fst kvs)" by (rule obj_get_None_key)
    with True show ?thesis by simp
  next
    case False
    then show ?thesis by simp
  qed
  have m: "raise_server_message (JObj kvs) = HomeAssistantError m"
    using h by (simp add: raise_server_message_def)
  show "\<exists>st'. get_token e st = (Inl (HomeAssistantError m), st') \<and> token st' = token st"
    by (simp add: get_token_def assms Let_def c m log_def sent_def)
qed

text \<open>
  The scenario of the specification (\<^verbatim>\<open>{"access_token": "T1"}\<close> at status 200 gives
  the token \<^verbatim>\<open>"T1"\<close>), and a rejection with a message at status 401.
\<close>

theorem get_token_response_witness:
  "(\<exists>st'. get_token (host (replies 200 (JObj [(''access_token'', JStr ''T1'')])))
             (init_state ''ak'' ''sk'') = (Inr (), st') \<and> token st' = JStr ''T1'') \<and>
   (\<exists>st'. get_token (host (replies 401
             (JObj [(''error'', JObj [(''message'', JStr ''unknown client id'')])])))
             (init_state ''ak'' ''sk'') = (Inl (HomeAssistantError (JStr ''unknown client id'')), st') \<and>
          token st' = JStr [])"
proof -
  let ?st = "init_state ''ak'' ''sk''"
  let ?p1 = "[(''access_token'', JStr ''T1'')]"
  let ?p2 = "[(''error'', JObj [(''message'', JStr ''unknown client id'')])]"
  let ?r1 = "\<lparr>status = 200, resp_url = url (token_request ?st), body = Json (JObj ?p1)\<rparr>"
  let ?r2 = "\<lparr>status = 401, resp_url = url (token_request ?st), body = Json (JObj ?p2)\<rparr>"
  have a1: "server (host (replies 200 (JObj ?p1))) (token_request ?st) = Response ?r1"
    by (simp add: host_def replies_def)
  have a2: "body ?r1 = Json (JObj ?p1)" by simp
  have a3: "status ?r1 < 300 \<and> obj_get ?p1 ''access_token'' = Some (JStr ''T1'')"
    by (simp add: obj_get_def)
  have b1: "server (host (replies 401 (JObj ?p2))) (token_request ?st) = Response ?r2"
    by (simp add: host_def replies_def)
  have b2: "body ?r2 = Json (JObj ?p2)" by simp
  have b3: "(300 \<le> status ?r2 \<or> obj_get ?p2 ''access_token'' = None) \<and>
          obj_get ?p2 ''error'' = Some (JObj [(''message'', JStr ''unknown client id'')]) \<and>
          py_getitem (JObj [(''message'', JStr ''unknown client id'')]) ''message''
            = Inr (JStr ''unknown client id'')"
    by (simp add: obj_get_def)
  have t: "token ?st = JStr []" by (simp add: init_state_def)
  show ?thesis
    using get_token_response [OF a1 a2, THEN conjunct1, rule_format, OF a3]
      get_token_response [OF b1 b2, THEN conjunct2, rule_format, OF b3]
    unfolding t by simp
qed

lemmas token_defs = get_token_def token_request_def BAIDU_TOKEN_API_URL_def
  CONF_API_KEY_def CONF_SECRET_KEY_def CONF_GRANT_TYPE_def token_network_error_def

text \<open>
  Where the claim as written fails: an empty \<^verbatim>\<open>access_token\<close> at status 200 is
  stored as an empty token; status 201 with a token is a success, not an error; and
  a payload with neither \<^verbatim>\<open>access_token\<close> nor \<^verbatim>\<open>error\<close> raises \<open>KeyError\<close>,
  not \<^verbatim>\<open>HomeAssistantError\<close>.
\<close>

theorem get_token_counterexample:
  "(\<exists>st'. get_token (host (replies 200 (JObj [(''access_token'', JStr [])])))
             (init_state ''ak'' ''sk'') = (Inr (), st') \<and> token st' = JStr []) \<and>
   fst (get_token (host (replies 201 (JObj [(''access_token'', JStr ''T1'')])))
             (init_state ''ak'' ''sk'')) = Inr () \<and>
   fst (get_token (host (replies 200 (JObj [(''expires_in'', JInt 2592000)])))
             (init_state ''ak'' ''sk'')) = Inl (KeyError (JStr ''error''))"
  by (simp add: token_defs client_defs sample_defs Let_def)

section \<open>Transport failures and timeouts\<close>

text \<open>
  Claim C5, at a request that times out: both \<^verbatim>\<open>call_api\<close> and \<^verbatim>\<open>get_token\<close>
  raise \<open>UnboundLocalError\<close> for \<^verbatim>\<open>response\<close>, not the generic network error.
\<close>

theorem timeout_is_not_network_error:
  "fst (call_api (host times_out) ''post'' ''faceset/group/getlist'' None None
          (init_state ''ak'' ''sk'')) = Inl (UnboundLocalError ''response'') \<and>
   fst (get_token (host times_out) (init_state ''ak'' ''sk''))
     = Inl (UnboundLocalError ''response'')"
  by (simp add: token_defs client_defs sample_defs Let_def)

text \<open>
  A transport failure does end in the one generic \<^verbatim>\<open>HomeAssistantError\<close>, and a
  timeout before the response escapes as \<open>UnboundLocalError\<close> for every request.
\<close>

lemma transport_failure_is_network_error:
  "server e (api_request e st m f ps d) = ClientError \<Longrightarrow>
     fst (call_api e m f ps d st) = Inl (HomeAssistantError (JStr ''Network error on baidu face api.''))"
  "server e (token_request st) = ClientError \<Longrightarrow>
     fst (get_token e st) = Inl (HomeAssistantError (JStr ''Network error on baidu token api.''))"
  by (simp_all add: call_api_def get_token_def Let_def api_network_error_def token_network_error_def)

lemma timeout_before_response:
  "server e (api_request e st m f ps d) = TimeoutError \<Longrightarrow>
     fst (call_api e m f ps d st) = Inl (UnboundLocalError ''response'')"
  "server e (token_request st) = TimeoutError \<Longrightarrow>
     fst (get_token e st) = Inl (UnboundLocalError ''response'')"
  by (simp_all add: call_api_def get_token_def Let_def)


section \<open>Loading the store: one call, one group\<close>

text \<open>
  A call of the client appends its request to the requests sent, and its outcome
  depends on the state through the held token only.
\<close>

lemma call_api_requests:
  "call_api e m f ps d st = (r, st') \<Longrightarrow> requests st' = requests st @ [api_request e st m f ps d]"
  by (auto simp: call_api_def Let_def log_def sent_def
           split: http_outcome.splits body.splits if_splits)

lemma api_request_token:
  "token st' = token st \<Longrightarrow> api_request e st' m f ps d = api_request e st m f ps d"
  by (simp add: api_request_def)

lemma call_api_token:
  "token st' = token st \<Longrightarrow> fst (call_api e m f ps d st') = fst (call_api e m f ps d st)"
  by (simp add: call_api_def api_request_def Let_def
           split: http_outcome.splits body.splits)

text \<open>The inner loop over string ids adds each id under itself.\<close>

lemma mirror_apply:
  "mirror xs k = (case k of KStr q \<Rightarrow> if q \<in> set xs then Some (JStr q) else None | _ \<Rightarrow> None)"
  by (induction xs) (auto simp: mirror_def split: key.splits)

lemma dom_mirror: "dom (mirror xs) = KStr ` set xs"
proof (rule set_eqI)
  fix k
  show "k \<in> dom (mirror xs) \<longleftrightarrow> k \<in> KStr ` set xs"
    by (cases k) (auto simp: mirror_apply dom_def)
qed

lemma mirror_step: "m(KStr p \<mapsto> JStr p) ++ mirror xs = m ++ mirror (p # xs)"
  by (rule ext) (auto simp: map_add_def mirror_apply split: key.splits option.splits)

lemma store_persons_strings:
  "store st (KStr g) = Some m \<Longrightarrow>
     store_persons (JStr g) (map JStr xs) st =
       (Inr (), st\<lparr>store := (store st)(KStr g \<mapsto> m ++ mirror xs)\<rparr>)"
proof (induction xs arbitrary: st m)
  case Nil
  then have "(store st)(KStr g \<mapsto> m) = store st" by (simp add: fun_upd_idem)
  then show ?case by (simp add: mirror_def)
next
  case (Cons p xs)
  let ?st1 = "st\<lparr>store := (store st)(KStr g \<mapsto> m(KStr p \<mapsto> JStr p))\<rparr>"
  have g: "store ?st1 (KStr g) = Some (m(KStr p \<mapsto> JStr p))" by simp
  have step: "store_persons (JStr g) (map JStr (p # xs)) st =
                store_persons (JStr g) (map JStr xs) ?st1"
    using Cons.prems by simp
  have eq: "?st1\<lparr>store := (store ?st1)(KStr g \<mapsto> m(KStr p \<mapsto> JStr p) ++ mirror xs)\<rparr> =
            st\<lparr>store := (store st)(KStr g \<mapsto> m ++ mirror (p # xs))\<rparr>"
    by (simp add: mirror_step)
  show ?case
    unfolding step Cons.IH [OF g] eq ..
qed

lemma reported_cases:
  assumes "reported a k = Some xs"
  shows "\<exists>res. py_getitem a ''result'' = Inr res \<and>
           ((\<not> truthy res \<and> xs = []) \<or>
            (truthy res \<and> (\<exists>l. py_getitem res k = Inr l \<and> py_iter l = Inr xs)))"
  using assms by (auto simp: reported_def split: sum.splits if_splits)


text \<open>
  One round of the outer loop, for a group whose users are reported and for a group
  whose call fails.
\<close>

lemma users_call_state:
  assumes t: "token st = token st0"
  shows "\<exists>st2. call_api e ''get'' ''faceset/group/getusers'' (users_params (JStr g)) None st =
            (fst (call_api e ''get'' ''faceset/group/getusers'' (users_params (JStr g)) None st0), st2) \<and>
          store st2 = store st \<and> token st2 = token st0 \<and>
          requests st2 = requests st @ [users_request e st0 g]"
proof -
  let ?c = "call_api e ''get'' ''faceset/group/getusers'' (users_params (JStr g)) None st"
  have c: "?c = (fst ?c, snd ?c)" by simp
  from call_api_frame [OF c] call_api_requests [OF c] call_api_token [OF t] api_request_token [OF t] t
  have "?c = (fst (call_api e ''get'' ''faceset/group/getusers'' (users_params (JStr g)) None st0), snd ?c) \<and>
        store (snd ?c) = store st \<and> token (snd ?c) = token st0 \<and>
        requests (snd ?c) = requests st @ [users_request e st0 g]"
    by (simp add: users_request_def prod_eq_iff)
  then show ?thesis by blast
qed

lemma load_groups_step:
  assumes a: "fst (call_api e ''get'' ''faceset/group/getusers'' (users_params (JStr g)) None st0) = Inr ua"
    and r: "reported ua ''user_id_list'' = Some (map JStr xs)"
    and t: "token st = token st0"
  shows "\<exists>tasks1 st1. load_groups e (JStr g # rest) tasks st = load_groups e rest tasks1 st1 \<and>
           token st1 = token st0 \<and> store st1 = (store st)(KStr g \<mapsto> mirror xs) \<and>
           requests st1 = requests st @ [users_request e st0 g]"
proof -
  let ?st' = "st\<lparr>store := (store st)(KStr g \<mapsto> Map.empty),
                  entities := (entities st)(KStr g \<mapsto> \<lparr>g_id = JStr g, g_name = JStr g\<rparr>)\<rparr>"
  have t': "token ?st' = token st0" using t by simp
  obtain st2 where c: "call_api e ''get'' ''faceset/group/getusers'' (users_params (JStr g)) None ?st' = (Inr ua, st2)"
    and s2: "store st2 = store ?st'" "token st2 = token st0"
      "requests st2 = requests ?st' @ [users_request e st0 g]"
    using users_call_state [OF t', of e g] a by auto
  obtain res where res: "py_getitem ua ''result'' = Inr res"
    and alt: "(\<not> truthy res \<and> map JStr xs = []) \<or>
              (truthy res \<and> (\<exists>l. py_getitem res ''user_id_list'' = Inr l \<and> py_iter l = Inr (map JStr xs)))"
    using reported_cases [OF r] by blast
  from alt show ?thesis
  proof
    assume f: "\<not> truthy res \<and> map JStr xs = []"
    then have "load_groups e (JStr g # rest) tasks st = load_groups e rest tasks st2"
      by (simp add: c res Let_def)
    moreover have "store st2 = (store st)(KStr g \<mapsto> mirror xs)"
      using f s2 by (simp add: mirror_def)
    moreover have "requests st2 = requests st @ [users_request e st0 g]" using s2 by simp
    ultimately show ?thesis using s2(2) by blast
  next
    assume "truthy res \<and> (\<exists>l. py_getitem res ''user_id_list'' = Inr l \<and> py_iter l = Inr (map JStr xs))"
    then obtain l where tr: "truthy res" and l: "py_getitem res ''user_id_list'' = Inr l"
      and it: "py_iter l = Inr (map JStr xs)" by blast
    have g: "store st2 (KStr g) = Some Map.empty" using s2 by simp
    let ?st3 = "st2\<lparr>store := (store st2)(KStr g \<mapsto> Map.empty ++ mirror xs)\<rparr>"
    have sp: "store_persons (JStr g) (map JStr xs) st2 = (Inr (), ?st3)"
      by (rule store_persons_strings [OF g])
    have "load_groups e (JStr g # rest) tasks st = load_groups e rest (tasks @ [KStr g]) ?st3"
      by (simp add: c res tr l it sp Let_def)
    moreover have "store ?st3 = (store st)(KStr g \<mapsto> mirror xs)" using s2 by simp
    moreover have "requests ?st3 = requests st @ [users_request e st0 g]" using s2 by simp
    moreover have "token ?st3 = token st0" using s2 by simp
    ultimately show ?thesis by blast
  qed
qed

lemma load_groups_fail_step:
  assumes a: "fst (call_api e ''get'' ''faceset/group/getusers'' (users_params (JStr g)) None st0) = Inl x"
    and t: "token st = token st0"
  shows "\<exists>st1. load_groups e (JStr g # rest) tasks st = (Inl x, st1) \<and>
           store st1 = (store st)(KStr g \<mapsto> Map.empty) \<and>
           requests st1 = requests st @ [users_request e st0 g]"
proof -
  let ?st' = "st\<lparr>store := (store st)(KStr g \<mapsto> Map.empty),
                  entities := (entities st)(KStr g \<mapsto> \<lparr>g_id = JStr g, g_name = JStr g\<rparr>)\<rparr>"
  have t': "token ?st' = token st0" using t by simp
  obtain st2 where c: "call_api e ''get'' ''faceset/group/getusers'' (users_params (JStr g)) None ?st' = (Inl x, st2)"
    and s2: "store st2 = store ?st'" "requests st2 = requests ?st' @ [users_request e st0 g]"
    using users_call_state [OF t', of e g] a by auto
  have "load_groups e (JStr g # rest) tasks st = (Inl x, st2)"
    by (simp add: c Let_def)
  then show ?thesis using s2 by simp
qed

section \<open>Loading the store: the whole list\<close>

lemma load_groups_reported:
  assumes "\<forall>g\<in>set gs. \<exists>ua.
      fst (call_api e ''get'' ''faceset/group/getusers'' (users_params (JStr g)) None st0) = Inr ua \<and>
      reported ua ''user_id_list'' = Some (map JStr (ps g))"
    and "token st = token st0"
  shows "\<exists>tasks1 st1. load_groups e (map JStr gs) tasks st = (Inr tasks1, st1) \<and>
           (\<forall>g\<in>set gs. store st1 (KStr g) = Some (mirror (ps g))) \<and>
           (\<forall>k. k \<notin> KStr ` set gs \<longrightarrow> store st1 k = store st k) \<and>
           requests st1 = requests st @ map (users_request e st0) gs"
  using assms
proof (induction gs arbitrary: tasks st)
  case Nil
  then show ?case by simp
next
  case (Cons g gs)
  from Cons.prems(1) obtain ua where
    a: "fst (call_api e ''get'' ''faceset/group/getusers'' (users_params (JStr g)) None st0) = Inr ua"
    and r: "reported ua ''user_id_list'' = Some (map JStr (ps g))"
    by auto
  obtain tasks1 st1 where
    step: "load_groups e (JStr g # map JStr gs) tasks st = load_groups e (map JStr gs) tasks1 st1"
    and s1: "token st1 = token st0" "store st1 = (store st)(KStr g \<mapsto> mirror (ps g))"
      "requests st1 = requests st @ [users_request e st0 g]"
    using load_groups_step [OF a r Cons.prems(2)] by blast
  have rest: "\<forall>g\<in>set gs. \<exists>ua.
      fst (call_api e ''get'' ''faceset/group/getusers'' (users_params (JStr g)) None st0) = Inr ua \<and>
      reported ua ''user_id_list'' = Some (map JStr (ps g))"
    using Cons.prems(1) by simp
  obtain tasks2 st2 where
    l: "load_groups e (map JStr gs) tasks1 st1 = (Inr tasks2, st2)"
    and s2: "\<forall>g\<in>set gs. store st2 (KStr g) = Some (mirror (ps g))"
      "\<forall>k. k \<notin> KStr ` set gs \<longrightarrow> store st2 k = store st1 k"
      "requests st2 = requests st1 @ map (users_request e st0) gs"
    using Cons.IH [OF rest s1(1)] by blast
  have g: "store st2 (KStr g) = Some (mirror (ps g))"
  proof (cases "g \<in> set gs")
    case True
    with s2(1) show ?thesis by simp
  next
    case False
    then have "KStr g \<notin> KStr ` set gs" by auto
    with s2(2) have "store st2 (KStr g) = store st1 (KStr g)" by blast
    then show ?thesis using s1(2) by simp
  qed
  have other: "\<forall>k. k \<notin> KStr ` set (g # gs) \<longrightarrow> store st2 k = store st k"
    using s2(2) s1(2) by auto
  have "load_groups e (map JStr (g # gs)) tasks st = (Inr tasks2, st2)"
    using step l by simp
  moreover have "\<forall>h\<in>set (g # gs). store st2 (KStr h) = Some (mirror (ps h))"
    using g s2(1) by simp
  moreover have "requests st2 = requests st @ map (users_request e st0) (g # gs)"
    using s2(3) s1(3) by simp
  ultimately show ?case using other by blast
qed

lemma load_groups_fails_at:
  assumes "\<forall>h\<in>set pre. \<exists>ua xs.
      fst (call_api e ''get'' ''faceset/group/getusers'' (users_params (JStr h)) None st0) = Inr ua \<and>
      reported ua ''user_id_list'' = Some (map JStr xs)"
    and "fst (call_api e ''get'' ''faceset/group/getusers'' (users_params (JStr g)) None st0) = Inl x"
    and "token st = token st0"
  shows "\<exists>st1. load_groups e (map JStr (pre @ g # post)) tasks st = (Inl x, st1) \<and>
           dom (store st1) = dom (store st) \<union> KStr ` set (pre @ [g]) \<and>
           requests st1 = requests st @ map (users_request e st0) (pre @ [g])"
  using assms
proof (induction pre arbitrary: tasks st)
  case Nil
  from load_groups_fail_step [OF Nil.prems(2) Nil.prems(3), of "map JStr post" tasks]
  show ?case by auto
next
  case (Cons h pre)
  from Cons.prems(1) obtain ua xs where
    a: "fst (call_api e ''get'' ''faceset/group/getusers'' (users_params (JStr h)) None st0) = Inr ua"
    and r: "reported ua ''user_id_list'' = Some (map JStr xs)"
    by auto
  obtain tasks1 st1 where
    step: "load_groups e (JStr h # map JStr (pre @ g # post)) tasks st =
             load_groups e (map JStr (pre @ g # post)) tasks1 st1"
    and s1: "token st1 = token st0" "store st1 = (store st)(KStr h \<mapsto> mirror xs)"
      "requests st1 = requests st @ [users_request e st0 h]"
    using load_groups_step [OF a r Cons.prems(3)] by blast
  have rest: "\<forall>h\<in>set pre. \<exists>ua xs.
      fst (call_api e ''get'' ''faceset/group/getusers'' (users_params (JStr h)) None st0) = Inr ua \<and>
      reported ua ''user_id_list'' = Some (map JStr xs)"
    using Cons.prems(1) by simp
  obtain st2 where
    l: "load_groups e (map JStr (pre @ g # post)) tasks1 st1 = (Inl x, st2)"
    and s2: "dom (store st2) = dom (store st1) \<union> KStr ` set (pre @ [g])"
      "requests st2 = requests st1 @ map (users_request e st0) (pre @ [g])"
    using Cons.IH [OF rest Cons.prems(2) s1(1)] by blast
  have "load_groups e (map JStr ((h # pre) @ g # post)) tasks st = (Inl x, st2)"
    using step l by simp
  moreover have "dom (store st2) = dom (store st) \<union> KStr ` set ((h # pre) @ [g])"
    using s2(1) s1(2) by auto
  moreover have "requests st2 = requests st @ map (users_request e st0) ((h # pre) @ [g])"
    using s2(2) s1(3) by simp
  ultimately show ?case by blast
qed


lemma groups_call_state:
  "\<exists>st1. call_api e ''post'' ''faceset/group/getlist'' None None st =
            (fst (call_api e ''post'' ''faceset/group/getlist'' None None st), st1) \<and>
          store st1 = store st \<and> token st1 = token st \<and>
          requests st1 = requests st @ [groups_request e st]"
proof -
  let ?c = "call_api e ''post'' ''faceset/group/getlist'' None None st"
  have c: "?c = (fst ?c, snd ?c)" by simp
  from call_api_frame [OF c] call_api_requests [OF c]
  have "?c = (fst ?c, snd ?c) \<and> store (snd ?c) = store st \<and> token (snd ?c) = token st \<and>
        requests (snd ?c) = requests st @ [groups_request e st]"
    by (simp add: groups_request_def)
  then show ?thesis by blast
qed

text \<open>
  Claim C4. Started on the empty store, when the list-groups call succeeds and reports
  the group ids \<open>gs\<close>, and the list-users call of every group \<open>g\<close> succeeds and
  reports the person ids \<open>ps g\<close> (ids are JSON strings), \<^verbatim>\<open>update_store\<close> returns
  normally, the keys of the store are exactly \<open>gs\<close>, and under each group the keys
  are exactly \<open>ps g\<close>, every person id mapped to itself.
\<close>

theorem update_store_mirrors_reports:
  assumes "store st = Map.empty"
    and "fst (call_api e ''post'' ''faceset/group/getlist'' None None st) = Inr ga"
    and "reported ga ''group_id_list'' = Some (map JStr gs)"
    and "\<forall>g\<in>set gs. \<exists>ua.
      fst (call_api e ''get'' ''faceset/group/getusers'' (users_params (JStr g)) None st) = Inr ua \<and>
      reported ua ''user_id_list'' = Some (map JStr (ps g))"
  shows "\<exists>st'. update_store e st = (Inr (), st') \<and>
           dom (store st') = KStr ` set gs \<and>
           (\<forall>g\<in>set gs. \<exists>m. store st' (KStr g) = Some m \<and> dom m = KStr ` set (ps g) \<and>
              (\<forall>p\<in>set (ps g). m (KStr p) = Some (JStr p)))"
proof -
  obtain st1 where c: "call_api e ''post'' ''faceset/group/getlist'' None None st = (Inr ga, st1)"
    and s1: "store st1 = store st" "token st1 = token st"
    using groups_call_state [of e st] assms(2) by auto
  obtain res where res: "py_getitem ga ''result'' = Inr res"
    and alt: "(\<not> truthy res \<and> map JStr gs = []) \<or>
              (truthy res \<and> (\<exists>l. py_getitem res ''group_id_list'' = Inr l \<and> py_iter l = Inr (map JStr gs)))"
    using reported_cases [OF assms(3)] by blast
  from alt show ?thesis
  proof
    assume f: "\<not> truthy res \<and> map JStr gs = []"
    then have "update_store e st = (Inr (), st1)"
      by (simp add: update_store_def c res)
    then show ?thesis using f s1 assms(1) by simp
  next
    assume "truthy res \<and> (\<exists>l. py_getitem res ''group_id_list'' = Inr l \<and> py_iter l = Inr (map JStr gs))"
    then obtain l where tr: "truthy res" and l: "py_getitem res ''group_id_list'' = Inr l"
      and it: "py_iter l = Inr (map JStr gs)" by blast
    obtain tasks st2 where lg: "load_groups e (map JStr gs) [] st1 = (Inr tasks, st2)"
      and s2: "\<forall>g\<in>set gs. store st2 (KStr g) = Some (mirror (ps g))"
        "\<forall>k. k \<notin> KStr ` set gs \<longrightarrow> store st2 k = store st1 k"
      using load_groups_reported [OF assms(4) s1(2), of "[]"] by blast
    let ?st' = "st2\<lparr>refreshed := refreshed st2 @ tasks\<rparr>"
    have u: "update_store e st = (Inr (), ?st')"
      by (simp add: update_store_def c res tr l it lg)
    have d: "dom (store ?st') = KStr ` set gs"
    proof (rule set_eqI)
      fix k
      show "k \<in> dom (store ?st') \<longleftrightarrow> k \<in> KStr ` set gs"
      proof (cases "k \<in> KStr ` set gs")
        case True
        then show ?thesis using s2(1) by auto
      next
        case False
        with s2(2) have "store st2 k = store st1 k" by blast
        then show ?thesis using False s1(1) assms(1) by (simp add: dom_def)
      qed
    qed
    have "\<forall>g\<in>set gs. \<exists>m. store ?st' (KStr g) = Some m \<and> dom m = KStr ` set (ps g) \<and>
              (\<forall>p\<in>set (ps g). m (KStr p) = Some (JStr p))"
      using s2(1) by (simp add: dom_mirror mirror_apply)
    with u d show ?thesis by blast
  qed
qed

lemmas store_defs = groups_payload_def users_payload_def cloud_def broken_cloud_def down_def
  users_params_def reported_def

text \<open>
  The scenario of the specification: the group list \<^verbatim>\<open>["g1"]\<close> and the person list
  \<^verbatim>\<open>["p1"]\<close> give the store \<^verbatim>\<open>{"g1": {"p1": "p1"}}\<close>.
\<close>

theorem update_store_mirrors_reports_witness:
  "\<exists>st'. update_store (host cloud) (init_state ''ak'' ''sk'') = (Inr (), st') \<and>
         dom (store st') = {KStr ''g1''} \<and>
         (\<exists>m. store st' (KStr ''g1'') = Some m \<and> dom m = {KStr ''p1''} \<and>
              m (KStr ''p1'') = Some (JStr ''p1''))"
proof -
  let ?st = "init_state ''ak'' ''sk''"
  have h1: "store ?st = Map.empty" by (simp add: init_state_def)
  have h2: "fst (call_api (host cloud) ''post'' ''faceset/group/getlist'' None None ?st)
              = Inr (groups_payload [''g1''])"
    by (simp add: sample_defs client_defs store_defs Let_def)
  have h3: "reported (groups_payload [''g1'']) ''group_id_list'' = Some (map JStr [''g1''])"
    by (simp add: store_defs obj_get_def)
  have h4: "\<forall>g\<in>set [''g1'']. \<exists>ua.
      fst (call_api (host cloud) ''get'' ''faceset/group/getusers'' (users_params (JStr g)) None ?st)
         = Inr ua \<and>
      reported ua ''user_id_list'' = Some (map JStr ((\<lambda>g. [''p1'']) g))"
    by (simp add: sample_defs client_defs store_defs Let_def)
  show ?thesis
    using update_store_mirrors_reports [OF h1 h2 h3 h4] by simp
qed

text \<open>
  Claim C8. When the list-groups call raises, \<^verbatim>\<open>update_store\<close> raises the same
  exception and the store is untouched. When the group list is \<open>pre @ g # post\<close>, the
  calls for the groups of \<open>pre\<close> succeed and the call for \<open>g\<close> raises,
  \<^verbatim>\<open>update_store\<close> raises that exception; the requests sent are the group list and
  the user lists of \<open>pre\<close> and \<open>g\<close>, in that order, and the store gained the keys
  of \<open>pre\<close> and \<open>g\<close> only: no group of \<open>post\<close> is queried or inserted.
\<close>

theorem update_store_failure_propagates:
  "(fst (call_api e ''post'' ''faceset/group/getlist'' None None st) = Inl x \<longrightarrow>
      (\<exists>st'. update_store e st = (Inl x, st') \<and> store st' = store st \<and>
             requests st' = requests st @ [groups_request e st])) \<and>
   (fst (call_api e ''post'' ''faceset/group/getlist'' None None st) = Inr ga \<and>
    reported ga ''group_id_list'' = Some (map JStr (pre @ g # post)) \<and>
    (\<forall>h\<in>set pre. \<exists>ua xs.
       fst (call_api e ''get'' ''faceset/group/getusers'' (users_params (JStr h)) None st) = Inr ua \<and>
       reported ua ''user_id_list'' = Some (map JStr xs)) \<and>
    fst (call_api e ''get'' ''faceset/group/getusers'' (users_params (JStr g)) None st) = Inl x \<longrightarrow>
      (\<exists>st'. update_store e st = (Inl x, st') \<and>
             dom (store st') = dom (store st) \<union> KStr ` set (pre @ [g]) \<and>
             requests st' =
               requests st @ groups_request e st # map (users_request e st) (pre @ [g])))"
proof (intro conjI impI)
  assume a: "fst (call_api e ''post'' ''faceset/group/getlist'' None None st) = Inl x"
  obtain st1 where c: "call_api e ''post'' ''faceset/group/getlist'' None None st = (Inl x, st1)"
    and s1: "store st1 = store st" "requests st1 = requests st @ [groups_request e st]"
    using groups_call_state [of e st] a by auto
  have "update_store e st = (Inl x, st1)" by (simp add: update_store_def c)
  with s1 show "\<exists>st'. update_store e st = (Inl x, st') \<and> store st' = store st \<and>
             requests st' = requests st @ [groups_request e st]"
    by blast
next
  assume h: "fst (call_api e ''post'' ''faceset/group/getlist'' None None st) = Inr ga \<and>
    reported ga ''group_id_list'' = Some (map JStr (pre @ g # post)) \<and>
    (\<forall>h\<in>set pre. \<exists>ua xs.
       fst (call_api e ''get'' ''faceset/group/getusers'' (users_params (JStr h)) None st) = Inr ua \<and>
       reported ua ''user_id_list'' = Some (map JStr xs)) \<and>
    fst (call_api e ''get'' ''faceset/group/getusers'' (users_params (JStr g)) None st) = Inl x"
  then have a: "fst (call_api e ''post'' ''faceset/group/getlist'' None None st) = Inr ga"
    and r: "reported ga ''group_id_list'' = Some (map JStr (pre @ g # post))"
    and p: "\<forall>h\<in>set pre. \<exists>ua xs.
       fst (call_api e ''get'' ''faceset/group/getusers'' (users_params (JStr h)) None st) = Inr ua \<and>
       reported ua ''user_id_list'' = Some (map JStr xs)"
    and f: "fst (call_api e ''get'' ''faceset/group/getusers'' (users_params (JStr g)) None st) = Inl x"
    by simp_all
  obtain st1 where c: "call_api e ''post'' ''faceset/group/getlist'' None None st = (Inr ga, st1)"
    and s1: "store st1 = store st" "token st1 = token st"
      "requests st1 = requests st @ [groups_request e st]"
    using groups_call_state [of e st] a by auto
  obtain res l where res: "py_getitem ga ''result'' = Inr res" and tr: "truthy res"
    and l: "py_getitem res ''group_id_list'' = Inr l"
    and it: "py_iter l = Inr (map JStr (pre @ g # post))"
    using reported_cases [OF r] by auto
  obtain st2 where lg: "load_groups e (map JStr (pre @ g # post)) [] st1 = (Inl x, st2)"
    and s2: "dom (store st2) = dom (store st1) \<union> KStr ` set (pre @ [g])"
      "requests st2 = requests st1 @ map (users_request e st) (pre @ [g])"
    using load_groups_fails_at [OF p f s1(2), of post "[]"] by blast
  have lg': "load_groups e (map JStr pre @ JStr g # map JStr post) [] st1 = (Inl x, st2)"
    using lg by simp
  have "update_store e st = (Inl x, st2)"
    by (simp add: update_store_def c res tr l it lg')
  moreover have "dom (store st2) = dom (store st) \<union> KStr ` set (pre @ [g])"
    using s2(1) s1(1) by simp
  moreover have "requests st2 =
      requests st @ groups_request e st # map (users_request e st) (pre @ [g])"
    using s2(2) s1(3) by simp
  ultimately show "\<exists>st'. update_store e st = (Inl x, st') \<and>
             dom (store st') = dom (store st) \<union> KStr ` set (pre @ [g]) \<and>
             requests st' =
               requests st @ groups_request e st # map (users_request e st) (pre @ [g])"
    by blast
qed

text \<open>
  An unreachable server, and a cloud with the groups \<open>g1\<close>, \<open>g2\<close>, \<open>g3\<close> whose
  connection breaks on \<open>g2\<close>: \<open>g3\<close> is neither queried nor stored.
\<close>

theorem update_store_failure_propagates_witness:
  "(\<exists>st'. update_store (host down) (init_state ''ak'' ''sk'') =
            (Inl (HomeAssistantError (JStr ''Network error on baidu face api.'')), st') \<and>
          store st' = Map.empty \<and> map params (requests st') = [None]) \<and>
   (\<exists>st'. update_store (host broken_cloud) (init_state ''ak'' ''sk'') =
            (Inl (HomeAssistantError (JStr ''Network error on baidu face api.'')), st') \<and>
          dom (store st') = {KStr ''g1'', KStr ''g2''} \<and>
          map params (requests st') =
            [None, Some [(''group_id'', JStr ''g1'')], Some [(''group_id'', JStr ''g2'')]])"
proof -
  let ?st = "init_state ''ak'' ''sk''"
  let ?x = "HomeAssistantError (JStr ''Network error on baidu face api.'')"
  have e: "store ?st = Map.empty" "requests ?st = []" by (simp_all add: init_state_def)
  have a: "fst (call_api (host down) ''post'' ''faceset/group/getlist'' None None ?st) = Inl ?x"
    by (simp add: sample_defs client_defs store_defs Let_def)
  have b: "fst (call_api (host broken_cloud) ''post'' ''faceset/group/getlist'' None None ?st)
             = Inr (groups_payload [''g1'', ''g2'', ''g3'']) \<and>
    reported (groups_payload [''g1'', ''g2'', ''g3'']) ''group_id_list''
       = Some (map JStr ([''g1''] @ ''g2'' # [''g3''])) \<and>
    (\<forall>h\<in>set [''g1'']. \<exists>ua xs.
       fst (call_api (host broken_cloud) ''get'' ''faceset/group/getusers''
              (users_params (JStr h)) None ?st) = Inr ua \<and>
       reported ua ''user_id_list'' = Some (map JStr xs)) \<and>
    fst (call_api (host broken_cloud) ''get'' ''faceset/group/getusers''
           (users_params (JStr ''g2'')) None ?st) = Inl ?x"
  proof (intro conjI)
    show "\<forall>h\<in>set [''g1'']. \<exists>ua xs.
       fst (call_api (host broken_cloud) ''get'' ''faceset/group/getusers''
              (users_params (JStr h)) None ?st) = Inr ua \<and>
       reported ua ''user_id_list'' = Some (map JStr xs)"
    proof
      fix h assume "h \<in> set [''g1'']"
      then have h: "h = ''g1''" by simp
      have "fst (call_api (host broken_cloud) ''get'' ''faceset/group/getusers''
              (users_params (JStr h)) None ?st) = Inr (users_payload [''p1'']) \<and>
            reported (users_payload [''p1'']) ''user_id_list'' = Some (map JStr [''p1''])"
        unfolding h by (simp add: sample_defs client_defs store_defs Let_def)
      then show "\<exists>ua xs.
       fst (call_api (host broken_cloud) ''get'' ''faceset/group/getusers''
              (users_params (JStr h)) None ?st) = Inr ua \<and>
       reported ua ''user_id_list'' = Some (map JStr xs)" by blast
    qed
  qed (simp_all add: sample_defs client_defs store_defs Let_def)
  have rq: "map params (groups_request (host down) ?st # []) = [None]"
    "map params (groups_request (host broken_cloud) ?st #
        map (users_request (host broken_cloud) ?st) ([''g1''] @ [''g2''])) =
      [None, Some [(''group_id'', JStr ''g1'')], Some [(''group_id'', JStr ''g2'')]]"
    by (simp_all add: groups_request_def users_request_def api_request_def users_params_def)
  show ?thesis
    using update_store_failure_propagates [of "host down" ?st ?x, THEN conjunct1, rule_format, OF a]
      update_store_failure_propagates [of "host broken_cloud" ?st ?x "groups_payload [''g1'', ''g2'', ''g3'']"
         "[''g1'']" "''g2''" "[''g3'']", THEN conjunct2, rule_format, OF b]
      rq
    unfolding e by auto
qed


section \<open>The keys of the scratch dictionary\<close>

text \<open>
  The theorems about a match ask that \<^verbatim>\<open>ATTR_LIST\<close> has its four keys. That is an
  invariant: assignments to existing keys keep the keys, so every call of
  \<^verbatim>\<open>async_process_image\<close> leaves them as they were, whatever its outcome.
\<close>

lemma update_keys: "k \<in> set (map fst al) \<Longrightarrow> map fst (AList.update k v al) = map fst al"
  by (induction al) auto

lemma fold_update_keys:
  "set ks \<subseteq> set (map fst al) \<Longrightarrow> map fst (fold (\<lambda>k. AList.update k v) ks al) = map fst al"
proof (induction ks arbitrary: al)
  case Nil
  then show ?case by simp
next
  case (Cons k ks)
  then have k: "map fst (AList.update k v al) = map fst al" by (simp add: update_keys)
  with Cons.prems have "set ks \<subseteq> set (map fst (AList.update k v al))" by simp
  from Cons.IH [OF this] k show ?case by simp
qed

lemma reset_attrs_same_keys: "map fst (reset_attrs al) = map fst al"
  by (simp add: reset_attrs_def fold_update_keys)

lemma fill_attrs_same_keys:
  "set ks \<subseteq> set (map fst al) \<Longrightarrow> map fst (snd (fill_attrs ret ks al)) = map fst al"
proof (induction ks arbitrary: al)
  case Nil
  then show ?case by simp
next
  case (Cons k ks)
  show ?case
  proof (cases "first_user_field ret k")
    case (Inl x)
    then show ?thesis by simp
  next
    case (Inr v)
    from Cons.prems have k: "map fst (AList.update k v al) = map fst al"
      by (simp add: update_keys)
    with Cons.prems have "set ks \<subseteq> set (map fst (AList.update k v al))" by simp
    from Cons.IH [OF this] k Inr show ?thesis by simp
  qed
qed

lemma parse_match_same_keys:
  "map fst (attr_list (snd (parse_match e ent img ret st))) = map fst (attr_list st)"
proof -
  have "map fst (snd (fill_attrs ret (map fst (attr_list st)) (attr_list st))) = map fst (attr_list st)"
    by (rule fill_attrs_same_keys) simp
  then show ?thesis
    by (auto simp: parse_match_def Let_def split: sum.splits prod.splits if_splits)
qed

lemma process_same_keys:
  "map fst (attr_list (snd (async_process_image e ent img st))) = map fst (attr_list st)"
proof -
  obtain r st1 where c: "call_api e ''post'' ''search'' (search_params ent) (search_data img) st = (r, st1)"
    by (cases "call_api e ''post'' ''search'' (search_params ent) (search_data img) st")
  have a: "attr_list st1 = attr_list st" using call_api_frame [OF c] by simp
  have p: "map fst (attr_list st3) = map fst (attr_list st)"
    if "parse_match e ent img ret (st1\<lparr>attr_list := reset_attrs (attr_list st)\<rparr>) = (q, st3)"
    for ret q st3
    using parse_match_same_keys [of e ent img ret "st1\<lparr>attr_list := reset_attrs (attr_list st)\<rparr>"]
      that by (simp add: reset_attrs_same_keys)
  show ?thesis
    using a
    by (auto simp: async_process_image_def c Let_def log_def async_process_faces_def
          reset_attrs_same_keys split: sum.splits exn.splits prod.splits dest!: p)
qed

end
